theory Spec2Isabelle
  imports Complex_Main
begin

section \<open>JavaScript numbers\<close>

text \<open>
  A JavaScript number is an IEEE 754 binary64 value. A finite one is modelled as the real
  number it denotes; the two zeros are identified (nothing below divides, so their sign
  is never observed). \<open>nearestDouble\<close> rounds a real to the nearest binary64 value,
  ties to the even significand: the binade \<open>exponentOf\<close> is found by halving or doubling
  (down to the subnormal binade -1022, up to 1024), the spacing of the doubles there is
  \<open>2 ^ (exponent - 52)\<close>, and the quotient is rounded to an integer. \<open>toDouble\<close> is the
  result of an arithmetic operation whose exact value is the given real: the rounded
  value, or an infinity when it reaches \<open>2 ^ 1024\<close>. A decimal literal of the source
  denotes \<open>nearestDouble\<close> of its decimal value.
\<close>

datatype Number = Finite real | PosInfinity | NegInfinity | NaN

definition roundHalfEven :: "real \<Rightarrow> int" where
  "roundHalfEven q =
     (let n = \<lfloor>q\<rfloor>; d = q - of_int n
      in if d < 1 / 2 then n else if d > 1 / 2 then n + 1 else if even n then n else n + 1)"

fun binadeUp :: "nat \<Rightarrow> real \<Rightarrow> int" where
  "binadeUp 0 a = 0"
| "binadeUp (Suc n) a = (if a < 2 then 0 else 1 + binadeUp n (a / 2))"

fun binadeDown :: "nat \<Rightarrow> real \<Rightarrow> int" where
  "binadeDown 0 a = 0"
| "binadeDown (Suc n) a = (if 1 \<le> a then 0 else binadeDown n (a * 2) - 1)"

definition exponentOf :: "real \<Rightarrow> int" where
  "exponentOf a = (if 1 \<le> a then binadeUp 1024 a else binadeDown 1022 a)"

definition pow2 :: "int \<Rightarrow> real" where
  "pow2 k = (if 0 \<le> k then 2 ^ nat k else 1 / 2 ^ nat (- k))"

definition nearestDouble :: "real \<Rightarrow> real" where
  "nearestDouble x =
     (if x = 0 then 0
      else let ulp = pow2 (exponentOf \<bar>x\<bar> - 52)
           in of_int (roundHalfEven (x / ulp)) * ulp)"

definition toDouble :: "real \<Rightarrow> Number" where
  "toDouble x =
     (let r = nearestDouble x
      in if \<bar>r\<bar> \<ge> pow2 1024 then (if x > 0 then PosInfinity else NegInfinity)
         else Finite r)"

text \<open>
  The operations of the language on numbers: \<open>+\<close>, unary minus, \<open>-\<close>, \<open>*\<close>, \<open>Math.abs\<close>,
  \<open>Math.max\<close>, \<open>Math.sqrt\<close> (correctly rounded, as the engines compute it) and \<open><=\<close>.
\<close>

fun jsAdd :: "Number \<Rightarrow> Number \<Rightarrow> Number" where
  "jsAdd (Finite x) (Finite y) = toDouble (x + y)"
| "jsAdd NaN b = NaN"
| "jsAdd a NaN = NaN"
| "jsAdd PosInfinity NegInfinity = NaN"
| "jsAdd NegInfinity PosInfinity = NaN"
| "jsAdd PosInfinity b = PosInfinity"
| "jsAdd a PosInfinity = PosInfinity"
| "jsAdd NegInfinity b = NegInfinity"
| "jsAdd a NegInfinity = NegInfinity"

fun jsNeg :: "Number \<Rightarrow> Number" where
  "jsNeg (Finite x) = Finite (- x)"
| "jsNeg PosInfinity = NegInfinity"
| "jsNeg NegInfinity = PosInfinity"
| "jsNeg NaN = NaN"

definition jsSub :: "Number \<Rightarrow> Number \<Rightarrow> Number" where
  "jsSub a b = jsAdd a (jsNeg b)"

text \<open>The sign of a number that is not NaN: -1, 0 or 1.\<close>

fun jsSign :: "Number \<Rightarrow> int" where
  "jsSign (Finite x) = (if x > 0 then 1 else if x < 0 then - 1 else 0)"
| "jsSign PosInfinity = 1"
| "jsSign NegInfinity = - 1"
| "jsSign NaN = 0"

fun jsMul :: "Number \<Rightarrow> Number \<Rightarrow> Number" where
  "jsMul (Finite x) (Finite y) = toDouble (x * y)"
| "jsMul NaN b = NaN"
| "jsMul a NaN = NaN"
| "jsMul a b =
     (if jsSign a * jsSign b = 0 then NaN
      else if jsSign a * jsSign b > 0 then PosInfinity else NegInfinity)"

fun jsAbs :: "Number \<Rightarrow> Number" where
  "jsAbs (Finite x) = Finite \<bar>x\<bar>"
| "jsAbs PosInfinity = PosInfinity"
| "jsAbs NegInfinity = PosInfinity"
| "jsAbs NaN = NaN"

fun jsLe :: "Number \<Rightarrow> Number \<Rightarrow> bool" where
  "jsLe NaN b = False"
| "jsLe a NaN = False"
| "jsLe (Finite x) (Finite y) = (x \<le> y)"
| "jsLe NegInfinity b = True"
| "jsLe a PosInfinity = True"
| "jsLe a b = False"

fun jsMax :: "Number \<Rightarrow> Number \<Rightarrow> Number" where
  "jsMax NaN b = NaN"
| "jsMax a NaN = NaN"
| "jsMax a b = (if jsLe a b then b else a)"

fun jsSqrt :: "Number \<Rightarrow> Number" where
  "jsSqrt (Finite x) = (if x < 0 then NaN else toDouble (sqrt x))"
| "jsSqrt PosInfinity = PosInfinity"
| "jsSqrt NegInfinity = NaN"
| "jsSqrt NaN = NaN"

section \<open>Data model (types.ts, constants.ts)\<close>

text \<open>
  The numbers held in the state (positions, dimensions, offsets, heights, angles) are
  finite and are modelled as \<open>real\<close>. The stability evaluator and the ghost's lateral
  steps compute on them with the binary64 operations above; the tower health monitor,
  the score and the camera controller only compare them and combine them over the
  reals. Block names are cosmetic and are left out.
\<close>

datatype BlockShapeType = CUBE_S | RECT_TALL | RECT_WIDE | CYLINDER_S

datatype Shape = Box | Cylinder

record BlockDimensions =
  dim_x :: real
  dim_y :: real
  dim_z :: real

record BlockDefinition =
  type :: BlockShapeType
  dimensions :: BlockDimensions
  mass :: real
  color :: nat
  friction :: real
  restitution :: real
  shape :: Shape

definition BLOCK_DEFINITIONS :: "BlockShapeType \<Rightarrow> BlockDefinition" where
  "BLOCK_DEFINITIONS t =
     (case t of
        CUBE_S \<Rightarrow> \<lparr>type = CUBE_S, dimensions = \<lparr>dim_x = 0.5, dim_y = 0.5, dim_z = 0.5\<rparr>,
                    mass = 1, color = 0xff6347, friction = nearestDouble 0.8, restitution = nearestDouble 0.05, shape = Box\<rparr>
      | RECT_TALL \<Rightarrow> \<lparr>type = RECT_TALL, dimensions = \<lparr>dim_x = 0.25, dim_y = 1, dim_z = 0.25\<rparr>,
                    mass = 1.5, color = 0x4682b4, friction = nearestDouble 0.7, restitution = nearestDouble 0.05, shape = Box\<rparr>
      | RECT_WIDE \<Rightarrow> \<lparr>type = RECT_WIDE, dimensions = \<lparr>dim_x = 1, dim_y = 0.25, dim_z = 0.5\<rparr>,
                    mass = 2.5, color = 0x3cb371, friction = nearestDouble 0.9, restitution = nearestDouble 0.05, shape = Box\<rparr>
      | CYLINDER_S \<Rightarrow> \<lparr>type = CYLINDER_S, dimensions = \<lparr>dim_x = nearestDouble 0.4, dim_y = 0.75, dim_z = 16\<rparr>,
                    mass = nearestDouble 1.2, color = 0xffd700, friction = nearestDouble 0.6, restitution = nearestDouble 0.1, shape = Cylinder\<rparr>)"

record Vec3 =
  vx :: real
  vy :: real
  vz :: real

text \<open>
  A rigid body as the scene reads it from the physics engine: its position, and \<open>upDot\<close>,
  the number \<open>dotProduct\<close> that \<open>animate\<close> obtains from the body's quaternion (the local
  up axis rotated into world space, normalised, and dotted with world-up). The engine and
  its quaternion arithmetic are outside the repository, so the value is taken as read.
\<close>

record Body =
  position :: Vec3
  upDot :: real

record PhysicsObject =
  body :: Body
  ident :: nat
  objDefinition :: BlockDefinition

definition GROUND_LEVEL :: real where "GROUND_LEVEL = 0"
definition BLOCK_SPAWN_HEIGHT_OFFSET :: real where "BLOCK_SPAWN_HEIGHT_OFFSET = 0.2"
definition GAME_OVER_FALL_THRESHOLD_Y :: real where "GAME_OVER_FALL_THRESHOLD_Y = - 5"
definition FALLEN_BLOCK_DOT_THRESHOLD :: real where "FALLEN_BLOCK_DOT_THRESHOLD = 0.5"
definition TOWER_INSTABILITY_WARNING_DOT_THRESHOLD :: real where
  "TOWER_INSTABILITY_WARNING_DOT_THRESHOLD = 0.866"
definition STABILITY_INDICATOR_OFFSET_Y :: real where "STABILITY_INDICATOR_OFFSET_Y = 0.05"

definition GHOST_BLOCK_X_MOVEMENT_STEP :: real where
  "GHOST_BLOCK_X_MOVEMENT_STEP = nearestDouble 0.2"
definition GHOST_BLOCK_ROTATION_STEP :: real where "GHOST_BLOCK_ROTATION_STEP = pi / 12"
definition GHOST_BLOCK_FINE_ROTATION_STEP :: real where "GHOST_BLOCK_FINE_ROTATION_STEP = pi / 36"

definition PLACEMENT_STABILITY_GREEN_THRESHOLD_BOX :: real where
  "PLACEMENT_STABILITY_GREEN_THRESHOLD_BOX = nearestDouble 0.4"
definition PLACEMENT_STABILITY_YELLOW_THRESHOLD_BOX :: real where
  "PLACEMENT_STABILITY_YELLOW_THRESHOLD_BOX = nearestDouble 0.8"
definition PLACEMENT_STABILITY_GREEN_THRESHOLD_CYLINDER :: real where
  "PLACEMENT_STABILITY_GREEN_THRESHOLD_CYLINDER = nearestDouble 0.3"
definition PLACEMENT_STABILITY_YELLOW_THRESHOLD_CYLINDER :: real where
  "PLACEMENT_STABILITY_YELLOW_THRESHOLD_CYLINDER = nearestDouble 0.7"

text \<open>The three indicator colours \<open>STABILITY_INDICATOR_COLOR_*\<close>.\<close>

datatype Stability = GREEN | YELLOW | RED

section \<open>Scene state (the refs and React state of GameScene.tsx)\<close>

text \<open>
  The ghost mesh and the stability indicator mesh are \<open>None\<close> while their ref is null.
  \<open>ghostBlockXOffset\<close> and \<open>ghostBlockYRotation\<close> stand for the React state together with
  the proxy refs that mirror it. \<open>contactMaterials\<close> lists the (friction, restitution)
  pairs registered with the physics world. \<open>nextId\<close> stands for the fresh identifier
  that \<open>internalAddBlock\<close> builds from the clock and a random number.
\<close>

text \<open>
  The vignette style: \<open>StyleEmpty\<close> is \<open>{}\<close>, \<open>StyleNone\<close> is \<open>boxShadow: 'none'\<close>, and
  \<open>StyleShadow blur spread opacity\<close> is the inset red shadow with these three numbers.
\<close>

datatype VignetteStyle = StyleEmpty | StyleNone | StyleShadow real real real

record GhostMesh =
  ghostPosition :: Vec3
  ghostRotationY :: real
  ghostVisible :: bool

record IndicatorMesh =
  indicatorColor :: Stability
  indicatorPosition :: Vec3
  indicatorRotationY :: real
  indicatorVisible :: bool

record Game =
  worldReady :: bool
  sceneRefReady :: bool
  cameraReady :: bool
  rendererReady :: bool
  isSceneReady :: bool
  physicsObjects :: "PhysicsObject list"
  contactMaterials :: "(real \<times> real) list"
  ghostBlock :: "GhostMesh option"
  stabilityIndicator :: "IndicatorMesh option"
  ghostBlockXOffset :: real
  ghostBlockYRotation :: real
  blockToPlace :: "BlockDefinition option"
  isGameOver :: bool
  canAddBlock :: bool
  maxAchievedHeightInGame :: real
  currentHighestBlockY :: real
  towerInstabilityVignetteStyle :: VignetteStyle
  nextId :: nat

section \<open>Stability evaluator (calculatePlacementStability)\<close>

text \<open>
  The \<open>forEach\<close> that selects \<open>highestBlock\<close>: the accumulator is \<open>None\<close> while
  \<open>highestBlock\<close> is null and \<open>maxBlockY\<close> is \<open>-Infinity\<close> (every position exceeds it);
  afterwards \<open>maxBlockY\<close> is the selected block's centre height.
\<close>

fun highestStep :: "PhysicsObject option \<Rightarrow> PhysicsObject \<Rightarrow> PhysicsObject option" where
  "highestStep None obj = Some obj"
| "highestStep (Some h) obj =
     (if vy (position (body obj)) > vy (position (body h)) then Some obj else Some h)"

definition findHighestBlock :: "PhysicsObject list \<Rightarrow> PhysicsObject option" where
  "findHighestBlock objs = foldl highestStep None objs"

definition calculatePlacementStability :: "Game \<Rightarrow> Stability" where
  "calculatePlacementStability s =
     (if ghostBlock s = None \<or> blockToPlace s = None \<or> length (physicsObjects s) = 0 then GREEN
      else case blockToPlace s of None \<Rightarrow> GREEN | Some ghostDef \<Rightarrow>
        let ghostX = Finite (ghostBlockXOffset s);
            ghostZ = Finite 0
        in case findHighestBlock (physicsObjects s) of
             None \<Rightarrow> GREEN
           | Some highestBlock \<Rightarrow>
               let targetDef = objDefinition highestBlock;
                   targetX = Finite (vx (position (body highestBlock)));
                   targetZ = Finite (vz (position (body highestBlock)));
                   offsetX = jsAbs (jsSub ghostX targetX);
                   offsetZ = jsAbs (jsSub ghostZ targetZ)
               in if shape ghostDef = Box \<and> shape targetDef = Box then
                    let ghostHalfWidthX = Finite (dim_x (dimensions ghostDef));
                        ghostHalfDepthZ = Finite (dim_z (dimensions ghostDef));
                        targetHalfWidthX = Finite (dim_x (dimensions targetDef));
                        targetHalfDepthZ = Finite (dim_z (dimensions targetDef));
                        effectiveAllowedOffsetXGreen =
                          jsAdd (jsMax (Finite 0) (jsSub targetHalfWidthX ghostHalfWidthX))
                            (jsMul ghostHalfWidthX (Finite PLACEMENT_STABILITY_GREEN_THRESHOLD_BOX));
                        effectiveAllowedOffsetZGreen =
                          jsAdd (jsMax (Finite 0) (jsSub targetHalfDepthZ ghostHalfDepthZ))
                            (jsMul ghostHalfDepthZ (Finite PLACEMENT_STABILITY_GREEN_THRESHOLD_BOX));
                        effectiveAllowedOffsetXYellow =
                          jsAdd (jsMax (Finite 0) (jsSub targetHalfWidthX ghostHalfWidthX))
                            (jsMul ghostHalfWidthX (Finite PLACEMENT_STABILITY_YELLOW_THRESHOLD_BOX));
                        effectiveAllowedOffsetZYellow =
                          jsAdd (jsMax (Finite 0) (jsSub targetHalfDepthZ ghostHalfDepthZ))
                            (jsMul ghostHalfDepthZ (Finite PLACEMENT_STABILITY_YELLOW_THRESHOLD_BOX))
                    in if jsLe offsetX effectiveAllowedOffsetXGreen
                          \<and> jsLe offsetZ effectiveAllowedOffsetZGreen then GREEN
                       else if jsLe offsetX effectiveAllowedOffsetXYellow
                          \<and> jsLe offsetZ effectiveAllowedOffsetZYellow then YELLOW
                       else RED
                  else if shape ghostDef = Cylinder \<or> shape targetDef = Cylinder then
                    let ghostRadius = Finite (dim_x (dimensions ghostDef));
                        targetRadius = Finite (dim_x (dimensions targetDef));
                        radialDistance =
                          jsSqrt (jsAdd (jsMul offsetX offsetX) (jsMul offsetZ offsetZ));
                        effectiveAllowedRadialDistanceGreen =
                          jsAdd (jsMax (Finite 0) (jsSub targetRadius ghostRadius))
                            (jsMul ghostRadius (Finite PLACEMENT_STABILITY_GREEN_THRESHOLD_CYLINDER));
                        effectiveAllowedRadialDistanceYellow =
                          jsAdd (jsMax (Finite 0) (jsSub targetRadius ghostRadius))
                            (jsMul ghostRadius (Finite PLACEMENT_STABILITY_YELLOW_THRESHOLD_CYLINDER))
                    in if jsLe radialDistance effectiveAllowedRadialDistanceGreen then GREEN
                       else if jsLe radialDistance effectiveAllowedRadialDistanceYellow then YELLOW
                       else RED
                  else YELLOW)"

section \<open>Tower health monitor and game loop (animate)\<close>

definition TOWER_INSTABILITY_VIGNETTE_BASE_OPACITY :: real where
  "TOWER_INSTABILITY_VIGNETTE_BASE_OPACITY = 0.1"
definition TOWER_INSTABILITY_VIGNETTE_MAX_OPACITY :: real where
  "TOWER_INSTABILITY_VIGNETTE_MAX_OPACITY = 0.5"
definition TOWER_INSTABILITY_VIGNETTE_BASE_SPREAD :: real where
  "TOWER_INSTABILITY_VIGNETTE_BASE_SPREAD = 20"
definition TOWER_INSTABILITY_VIGNETTE_MAX_SPREAD :: real where
  "TOWER_INSTABILITY_VIGNETTE_MAX_SPREAD = 80"
definition TOWER_INSTABILITY_BLOCK_COUNT_FOR_MAX_EFFECT :: real where
  "TOWER_INSTABILITY_BLOCK_COUNT_FOR_MAX_EFFECT = 3"

text \<open>
  \<open>worldRef.current.step(1 / 60)\<close>: the engine moves the bodies. The new bodies are an
  input of the tick, one per placed block in registry order; a block without a new body
  keeps its old one.
\<close>

fun worldStep :: "Body list \<Rightarrow> PhysicsObject list \<Rightarrow> PhysicsObject list" where
  "worldStep (b # bs) (obj # objs) = obj\<lparr>body := b\<rparr> # worldStep bs objs"
| "worldStep bs objs = objs"

text \<open>The four local variables of \<open>animate\<close> that the \<open>forEach\<close> over the blocks updates.\<close>

record FrameScan =
  highestBlockYForFrame :: real
  anyBlockFallenOffWorld :: bool
  anyBlockTippedOverGameEnd :: bool
  unstableBlockCountForWarning :: nat

text \<open>
  One iteration of the \<open>forEach\<close> (lines 237 to 265): \<open>n\<close> is
  \<open>physicsObjectsRef.current.length\<close> and \<open>over\<close> is \<open>isGameOverRef.current\<close>.
\<close>

definition scanBlock :: "nat \<Rightarrow> bool \<Rightarrow> FrameScan \<Rightarrow> PhysicsObject \<Rightarrow> FrameScan" where
  "scanBlock n over acc obj =
     (let topOfBlock = vy (position (body obj)) + dim_y (dimensions (objDefinition obj));
          acc1 = (if topOfBlock > highestBlockYForFrame acc
                  then acc\<lparr>highestBlockYForFrame := topOfBlock\<rparr> else acc);
          dotProduct = upDot (body obj);
          acc2 = (if vy (position (body obj)) < GAME_OVER_FALL_THRESHOLD_Y \<and> \<not> over
                  then acc1\<lparr>anyBlockFallenOffWorld := True\<rparr> else acc1);
          acc3 = (if n \<ge> 2 \<and> \<not> over \<and> \<not> anyBlockTippedOverGameEnd acc2
                  then (if dotProduct < FALLEN_BLOCK_DOT_THRESHOLD
                        then acc2\<lparr>anyBlockTippedOverGameEnd := True\<rparr> else acc2)
                  else acc2)
      in if \<not> over \<and> dotProduct < TOWER_INSTABILITY_WARNING_DOT_THRESHOLD
         then acc3\<lparr>unstableBlockCountForWarning := unstableBlockCountForWarning acc3 + 1\<rparr>
         else acc3)"

definition scanBlocks :: "bool \<Rightarrow> PhysicsObject list \<Rightarrow> FrameScan" where
  "scanBlocks over objs =
     foldl (scanBlock (length objs) over)
       \<lparr>highestBlockYForFrame = GROUND_LEVEL, anyBlockFallenOffWorld = False,
        anyBlockTippedOverGameEnd = False, unstableBlockCountForWarning = 0\<rparr> objs"

text \<open>The callbacks the scene invokes on its host, in the order it invokes them.\<close>

datatype Event = ScoreUpdate real | GameOver real | BlockPlaced

text \<open>
  The vignette style that \<open>animate\<close> sets from the warning count (lines 279 to 298).
\<close>

definition vignetteStyleFor :: "bool \<Rightarrow> nat \<Rightarrow> VignetteStyle" where
  "vignetteStyleFor over unstableCount =
     (if \<not> over then
        let factor = min 1 (real unstableCount / TOWER_INSTABILITY_BLOCK_COUNT_FOR_MAX_EFFECT);
            opacity = TOWER_INSTABILITY_VIGNETTE_BASE_OPACITY
              + (TOWER_INSTABILITY_VIGNETTE_MAX_OPACITY
                  - TOWER_INSTABILITY_VIGNETTE_BASE_OPACITY) * factor;
            spread = TOWER_INSTABILITY_VIGNETTE_BASE_SPREAD
              + (TOWER_INSTABILITY_VIGNETTE_MAX_SPREAD
                  - TOWER_INSTABILITY_VIGNETTE_BASE_SPREAD) * factor;
            blur = spread * 0.75
        in if unstableCount > 0 then StyleShadow blur spread opacity else StyleShadow 0 0 0
      else StyleNone)"

text \<open>
  The ghost and indicator update of \<open>animate\<close> (lines 300 to 328), on the state the
  earlier parts of the tick have produced.
\<close>

definition updateGhostAndIndicator :: "Game \<Rightarrow> Game" where
  "updateGhostAndIndicator s =
     (case (ghostBlock s, stabilityIndicator s, blockToPlace s) of
        (Some ghost, Some indicator, Some def) \<Rightarrow>
          if \<not> isGameOver s \<and> isSceneReady s then
            let yPositionForGhost =
                  (if length (physicsObjects s) > 0
                   then currentHighestBlockY s + dim_y (dimensions def)
                          + BLOCK_SPAWN_HEIGHT_OFFSET
                   else GROUND_LEVEL + dim_y (dimensions def) + BLOCK_SPAWN_HEIGHT_OFFSET);
                ghost' = \<lparr>ghostPosition =
                            \<lparr>vx = ghostBlockXOffset s, vy = yPositionForGhost, vz = 0\<rparr>,
                          ghostRotationY = ghostBlockYRotation s,
                          ghostVisible = True\<rparr>;
                s' = s\<lparr>ghostBlock := Some ghost'\<rparr>;
                indicatorColor' = calculatePlacementStability s'
            in s'\<lparr>stabilityIndicator := Some
                  \<lparr>indicatorColor = indicatorColor',
                   indicatorPosition =
                     \<lparr>vx = vx (ghostPosition ghost'),
                      vy = yPositionForGhost - dim_y (dimensions def)
                             - STABILITY_INDICATOR_OFFSET_Y,
                      vz = vz (ghostPosition ghost')\<rparr>,
                   indicatorRotationY = ghostBlockYRotation s,
                   indicatorVisible = True\<rparr>\<rparr>
          else s\<lparr>ghostBlock := Some (ghost\<lparr>ghostVisible := False\<rparr>),
                 stabilityIndicator := Some (indicator\<lparr>indicatorVisible := False\<rparr>)\<rparr>
      | (Some ghost, indicator, _) \<Rightarrow>
          s\<lparr>ghostBlock := Some (ghost\<lparr>ghostVisible := False\<rparr>),
            stabilityIndicator :=
              map_option (\<lambda>i. i\<lparr>indicatorVisible := False\<rparr>) indicator\<rparr>
      | (None, _, _) \<Rightarrow> s)"

text \<open>
  One run of \<open>animate\<close>. It returns the new scene state and the callbacks invoked. The
  final part of the source function (placing the render camera from the camera state,
  rendering, requesting the next frame) changes nothing of this state and is left out.
\<close>

definition animate :: "Body list \<Rightarrow> Game \<Rightarrow> Game \<times> Event list" where
  "animate stepped s =
     (if \<not> worldReady s \<or> \<not> sceneRefReady s \<or> \<not> cameraReady s \<or> \<not> rendererReady s
      then (s, [])
      else
        let objs = worldStep stepped (physicsObjects s);
            over = isGameOver s;
            scan = scanBlocks over objs;
            currentTowerHeightForScore =
              (if length objs > 0 then highestBlockYForFrame scan - GROUND_LEVEL else 0);
            maxAchieved =
              (if \<not> over then max (maxAchievedHeightInGame s) currentTowerHeightForScore
               else maxAchievedHeightInGame s);
            ev1 = (if \<not> over then [ScoreUpdate (max 0 currentTowerHeightForScore)] else []);
            ev2 = (if (anyBlockFallenOffWorld scan \<or> anyBlockTippedOverGameEnd scan) \<and> \<not> over
                   then [GameOver (max 0 maxAchieved)] else [])
        in (updateGhostAndIndicator
              (s\<lparr>physicsObjects := objs,
                 currentHighestBlockY := highestBlockYForFrame scan,
                 maxAchievedHeightInGame := maxAchieved,
                 towerInstabilityVignetteStyle :=
                   vignetteStyleFor over (unstableBlockCountForWarning scan)\<rparr>),
            ev1 @ ev2))"

section \<open>Commit-placement operation (internalAddBlock)\<close>

text \<open>
  The guard of line 545, then the placement. The new body starts at the ghost's lateral
  offset and the ghost mesh's height, turned about the vertical axis only
  (\<open>setFromEuler(0, yaw, 0)\<close>), so its up axis is world-up and its \<open>upDot\<close> is 1. The
  ground body is in the world from the moment the world exists, so the block-on-ground
  contact material is always registered; every placed body was created with a material,
  so one block-on-block contact material is registered per placed block. \<open>setTimeout(() => setCanAddBlock(true), 200)\<close>
  is the separate step \<open>cooldownElapsed\<close>.
\<close>

definition internalAddBlock :: "Game \<Rightarrow> Game \<times> Event list" where
  "internalAddBlock s =
     (case (blockToPlace s, ghostBlock s) of
        (Some def, Some ghost) \<Rightarrow>
          if \<not> worldReady s \<or> \<not> sceneRefReady s \<or> isGameOver s \<or> \<not> canAddBlock s then (s, [])
          else
            let blockGroundContactMaterial = (0.7, 0.05);
                blockBlockContactMaterials =
                  map (\<lambda>existingObj.
                         (min (friction def) (friction (objDefinition existingObj)) * 0.9,
                          min (restitution def) (restitution (objDefinition existingObj)) * 0.5))
                      (physicsObjects s);
                newBody = \<lparr>position = \<lparr>vx = ghostBlockXOffset s,
                                         vy = vy (ghostPosition ghost), vz = 0\<rparr>,
                           upDot = 1\<rparr>
            in (s\<lparr>canAddBlock := False,
                  contactMaterials := contactMaterials s
                    @ [blockGroundContactMaterial] @ blockBlockContactMaterials,
                  physicsObjects := physicsObjects s
                    @ [\<lparr>body = newBody, ident = nextId s, objDefinition = def\<rparr>],
                  nextId := nextId s + 1,
                  ghostBlockXOffset := 0,
                  ghostBlockYRotation := 0\<rparr>, [BlockPlaced])
      | _ \<Rightarrow> (s, []))"

definition cooldownElapsed :: "Game \<Rightarrow> Game" where
  "cooldownElapsed s = s\<lparr>canAddBlock := True\<rparr>"

section \<open>Camera gesture controller\<close>

definition CAMERA_MIN_ZOOM_DISTANCE :: real where "CAMERA_MIN_ZOOM_DISTANCE = 3"
definition CAMERA_MAX_ZOOM_DISTANCE :: real where "CAMERA_MAX_ZOOM_DISTANCE = 35"
definition CAMERA_ZOOM_SPEED :: real where "CAMERA_ZOOM_SPEED = 0.015"
definition degToRad :: "real \<Rightarrow> real" where "degToRad d = d * (pi / 180)"
definition CAMERA_MIN_POLAR_ANGLE :: real where "CAMERA_MIN_POLAR_ANGLE = degToRad 5"
definition CAMERA_MAX_POLAR_ANGLE :: real where "CAMERA_MAX_POLAR_ANGLE = degToRad 88"
definition CAMERA_ROTATION_SPEED_X :: real where "CAMERA_ROTATION_SPEED_X = 0.015"
definition CAMERA_ROTATION_SPEED_Y :: real where "CAMERA_ROTATION_SPEED_Y = 0.015"
definition CAMERA_PAN_SPEED :: real where "CAMERA_PAN_SPEED = 0.3"

definition INITIAL_CAMERA_POSITION_VECTOR :: Vec3 where
  "INITIAL_CAMERA_POSITION_VECTOR = \<lparr>vx = 5, vy = 7, vz = 10\<rparr>"
definition INITIAL_CAMERA_LOOK_AT_VECTOR :: Vec3 where
  "INITIAL_CAMERA_LOOK_AT_VECTOR = \<lparr>vx = 0, vy = 3, vz = 0\<rparr>"

definition distanceTo :: "Vec3 \<Rightarrow> Vec3 \<Rightarrow> real" where
  "distanceTo a b =
     sqrt ((vx a - vx b) * (vx a - vx b) + (vy a - vy b) * (vy a - vy b)
           + (vz a - vz b) * (vz a - vz b))"

text \<open>\<open>Math.atan2(y, x)\<close> on real arguments.\<close>

definition atan2 :: "real \<Rightarrow> real \<Rightarrow> real" where
  "atan2 y x =
     (if x > 0 then arctan (y / x)
      else if x < 0 then (if y \<ge> 0 then arctan (y / x) + pi else arctan (y / x) - pi)
      else if y > 0 then pi / 2
      else if y < 0 then - (pi / 2)
      else 0)"

record CameraPreset =
  presetPhi :: real
  presetTheta :: real
  presetRadius :: real
  lookAtX :: real
  lookAtZ :: real

definition CAMERA_PRESET_FRONT :: CameraPreset where
  "CAMERA_PRESET_FRONT =
     \<lparr>presetPhi = pi / 2.5, presetTheta = pi / 2, presetRadius = 12, lookAtX = 0, lookAtZ = 0\<rparr>"
definition CAMERA_PRESET_FRONT_lookAtYFactor :: real where
  "CAMERA_PRESET_FRONT_lookAtYFactor = 0.4"
definition CAMERA_PRESET_TOP :: CameraPreset where
  "CAMERA_PRESET_TOP =
     \<lparr>presetPhi = 0.01, presetTheta = 0, presetRadius = 18, lookAtX = 0, lookAtZ = 0\<rparr>"
definition CAMERA_PRESET_TOP_lookAtY :: real where
  "CAMERA_PRESET_TOP_lookAtY = GROUND_LEVEL + 1"
definition CAMERA_PRESET_SIDE :: CameraPreset where
  "CAMERA_PRESET_SIDE =
     \<lparr>presetPhi = pi / 2.5, presetTheta = 0, presetRadius = 12, lookAtX = 0, lookAtZ = 0\<rparr>"
definition CAMERA_PRESET_SIDE_lookAtYFactor :: real where
  "CAMERA_PRESET_SIDE_lookAtYFactor = 0.4"

record CameraState =
  isDragging :: bool
  lastMouseX :: real
  lastMouseY :: real
  lookAt :: Vec3
  phi :: real
  theta :: real
  radius :: real

record TouchState =
  isInteracting :: bool
  isOrbiting :: bool
  isPinching :: bool
  isP_anning :: bool
  lastTouchX1 :: real
  lastTouchY1 :: real
  lastTouchX2 :: real
  lastTouchY2 :: real
  initialPinchDistance :: real
  initialPanMidX :: real
  initialPanMidY :: real

text \<open>
  The controller's state: the two refs, and whether \<open>mountRef.current\<close> is set.
\<close>

record Controls =
  cs :: CameraState
  ts :: TouchState
  mounted :: bool

definition initialCameraState :: CameraState where
  "initialCameraState =
     \<lparr>isDragging = False, lastMouseX = 0, lastMouseY = 0,
      lookAt = INITIAL_CAMERA_LOOK_AT_VECTOR,
      phi = arccos ((vy INITIAL_CAMERA_POSITION_VECTOR - vy INITIAL_CAMERA_LOOK_AT_VECTOR)
                     / distanceTo INITIAL_CAMERA_POSITION_VECTOR INITIAL_CAMERA_LOOK_AT_VECTOR),
      theta = atan2 (vx INITIAL_CAMERA_POSITION_VECTOR - vx INITIAL_CAMERA_LOOK_AT_VECTOR)
                    (vz INITIAL_CAMERA_POSITION_VECTOR - vz INITIAL_CAMERA_LOOK_AT_VECTOR),
      radius = distanceTo INITIAL_CAMERA_POSITION_VECTOR INITIAL_CAMERA_LOOK_AT_VECTOR\<rparr>"

definition initialTouchState :: TouchState where
  "initialTouchState =
     \<lparr>isInteracting = False, isOrbiting = False, isPinching = False, isP_anning = False,
      lastTouchX1 = 0, lastTouchY1 = 0, lastTouchX2 = 0, lastTouchY2 = 0,
      initialPinchDistance = 0, initialPanMidX = 0, initialPanMidY = 0\<rparr>"

definition initialControls :: Controls where
  "initialControls = \<lparr>cs = initialCameraState, ts = initialTouchState, mounted = True\<rparr>"

definition clampPhi :: "real \<Rightarrow> real" where
  "clampPhi p = max CAMERA_MIN_POLAR_ANGLE (min CAMERA_MAX_POLAR_ANGLE p)"

definition clampRadius :: "real \<Rightarrow> real" where
  "clampRadius r = max CAMERA_MIN_ZOOM_DISTANCE (min CAMERA_MAX_ZOOM_DISTANCE r)"

definition handleMouseDown :: "nat \<Rightarrow> real \<Rightarrow> real \<Rightarrow> Controls \<Rightarrow> Controls" where
  "handleMouseDown button clientX clientY c =
     (if button \<noteq> 0 \<or> isInteracting (ts c) then c
      else c\<lparr>cs := (cs c)\<lparr>isDragging := True, lastMouseX := clientX, lastMouseY := clientY\<rparr>\<rparr>)"

definition handleMouseMove :: "real \<Rightarrow> real \<Rightarrow> Controls \<Rightarrow> Controls" where
  "handleMouseMove clientX clientY c =
     (if \<not> isDragging (cs c) \<or> isInteracting (ts c) then c
      else
        let deltaX = clientX - lastMouseX (cs c);
            deltaY = clientY - lastMouseY (cs c)
        in c\<lparr>cs := (cs c)
              \<lparr>theta := theta (cs c) - deltaX * CAMERA_ROTATION_SPEED_X,
               phi := clampPhi (phi (cs c) - deltaY * CAMERA_ROTATION_SPEED_Y),
               lastMouseX := clientX,
               lastMouseY := clientY\<rparr>\<rparr>)"

definition handleMouseUp :: "Controls \<Rightarrow> Controls" where
  "handleMouseUp c = c\<lparr>cs := (cs c)\<lparr>isDragging := False\<rparr>\<rparr>"

definition handleWheel :: "real \<Rightarrow> Controls \<Rightarrow> Controls" where
  "handleWheel deltaY c =
     (if isInteracting (ts c) then c
      else c\<lparr>cs := (cs c)\<lparr>radius := clampRadius (radius (cs c) + deltaY * CAMERA_ZOOM_SPEED)\<rparr>\<rparr>)"

record Touch =
  clientX :: real
  clientY :: real

definition handleTouchStart :: "Touch list \<Rightarrow> Controls \<Rightarrow> Controls" where
  "handleTouchStart touches c =
     (if \<not> mounted c then c
      else
        let c1 = c\<lparr>ts := (ts c)\<lparr>isInteracting := True\<rparr>, cs := (cs c)\<lparr>isDragging := False\<rparr>\<rparr>
        in case touches of
             [t0] \<Rightarrow>
               c1\<lparr>ts := (ts c1)\<lparr>isOrbiting := True, isPinching := False, isP_anning := False,
                                lastTouchX1 := clientX t0, lastTouchY1 := clientY t0\<rparr>\<rparr>
           | [t0, t1] \<Rightarrow>
               let dx = clientX t0 - clientX t1;
                   dy = clientY t0 - clientY t1
               in c1\<lparr>ts := (ts c1)
                     \<lparr>isOrbiting := False,
                      initialPinchDistance := sqrt (dx * dx + dy * dy),
                      lastTouchX1 := clientX t0, lastTouchY1 := clientY t0,
                      lastTouchX2 := clientX t1, lastTouchY2 := clientY t1,
                      initialPanMidX := (clientX t0 + clientX t1) / 2,
                      initialPanMidY := (clientY t0 + clientY t1) / 2,
                      isP_anning := True,
                      isPinching := False\<rparr>\<rparr>
           | _ \<Rightarrow> c1)"

text \<open>
  The vector operations of the rendering library that the pan branch uses:
  \<open>normalize\<close> divides by the length, or by 1 when the length is 0.
\<close>

definition normalizeVec :: "Vec3 \<Rightarrow> Vec3" where
  "normalizeVec v =
     (let l = sqrt (vx v * vx v + vy v * vy v + vz v * vz v);
          d = (if l = 0 then 1 else l)
      in \<lparr>vx = vx v / d, vy = vy v / d, vz = vz v / d\<rparr>)"

definition crossVectors :: "Vec3 \<Rightarrow> Vec3 \<Rightarrow> Vec3" where
  "crossVectors a b =
     \<lparr>vx = vy a * vz b - vz a * vy b,
      vy = vz a * vx b - vx a * vz b,
      vz = vx a * vy b - vy a * vx b\<rparr>"

definition multiplyScalar :: "Vec3 \<Rightarrow> real \<Rightarrow> Vec3" where
  "multiplyScalar v k = \<lparr>vx = vx v * k, vy = vy v * k, vz = vz v * k\<rparr>"

definition addVec :: "Vec3 \<Rightarrow> Vec3 \<Rightarrow> Vec3" where
  "addVec a b = \<lparr>vx = vx a + vx b, vy = vy a + vy b, vz = vz a + vz b\<rparr>"

text \<open>
  \<open>worldDirection\<close> is what \<open>cameraRef.current.getWorldDirection\<close> returns, or \<open>None\<close>
  while \<open>cameraRef.current\<close> is null; it is read only in the pan branch.
\<close>

definition handleTouchMove :: "Touch list \<Rightarrow> Vec3 option \<Rightarrow> Controls \<Rightarrow> Controls" where
  "handleTouchMove touches worldDirection c =
     (if \<not> mounted c \<or> \<not> isInteracting (ts c) then c
      else case touches of
        [t0] \<Rightarrow>
          if isOrbiting (ts c) then
            let deltaX = clientX t0 - lastTouchX1 (ts c);
                deltaY = clientY t0 - lastTouchY1 (ts c)
            in c\<lparr>cs := (cs c)
                  \<lparr>theta := theta (cs c) - deltaX * CAMERA_ROTATION_SPEED_X * 0.75,
                   phi := clampPhi (phi (cs c) - deltaY * CAMERA_ROTATION_SPEED_Y * 0.75)\<rparr>,
                 ts := (ts c)\<lparr>lastTouchX1 := clientX t0, lastTouchY1 := clientY t0\<rparr>\<rparr>
          else c
      | [t0, t1] \<Rightarrow>
          let dx = clientX t0 - clientX t1;
              dy = clientY t0 - clientY t1;
              currentPinchDistance = sqrt (dx * dx + dy * dy);
              pinchDelta = currentPinchDistance - initialPinchDistance (ts c);
              currentPanMidX = (clientX t0 + clientX t1) / 2;
              currentPanMidY = (clientY t0 + clientY t1) / 2;
              panDeltaX = currentPanMidX - initialPanMidX (ts c);
              panDeltaY = currentPanMidY - initialPanMidY (ts c);
              pinchThreshold = 2;
              c1 = (if \<not> isPinching (ts c) \<and> \<not> isP_anning (ts c) then
                      (if \<bar>pinchDelta\<bar> > max \<bar>panDeltaX\<bar> \<bar>panDeltaY\<bar>
                          \<and> \<bar>pinchDelta\<bar> > pinchThreshold
                       then c\<lparr>ts := (ts c)\<lparr>isPinching := True, isP_anning := False\<rparr>\<rparr>
                       else c\<lparr>ts := (ts c)\<lparr>isP_anning := True, isPinching := False\<rparr>\<rparr>)
                    else c)
          in if isPinching (ts c1) then
               c1\<lparr>cs := (cs c1)
                    \<lparr>radius := clampRadius
                       (radius (cs c1)
                          - (currentPinchDistance - initialPinchDistance (ts c1))
                              * CAMERA_ZOOM_SPEED * 15)\<rparr>,
                  ts := (ts c1)\<lparr>initialPinchDistance := currentPinchDistance\<rparr>\<rparr>
             else if isP_anning (ts c1) then
               (case worldDirection of
                  None \<Rightarrow> c1
                | Some dir \<Rightarrow>
                    let forward = normalizeVec (dir\<lparr>vy := 0\<rparr>);
                        right = normalizeVec (crossVectors \<lparr>vx = 0, vy = 1, vz = 0\<rparr> forward);
                        panSpeedFactor = 0.005 * radius (cs c1);
                        lookAt1 = addVec (lookAt (cs c1))
                                    (multiplyScalar right (- panDeltaX * panSpeedFactor));
                        lookAt2 = addVec lookAt1
                                    (multiplyScalar forward (- panDeltaY * panSpeedFactor))
                    in c1\<lparr>cs := (cs c1)\<lparr>lookAt := lookAt2\<rparr>,
                          ts := (ts c1)\<lparr>initialPanMidX := currentPanMidX,
                                          initialPanMidY := currentPanMidY\<rparr>\<rparr>)
             else c1
      | _ \<Rightarrow> c)"

definition handleTouchEnd :: "Touch list \<Rightarrow> Controls \<Rightarrow> Controls" where
  "handleTouchEnd touches c =
     (case touches of
        [] \<Rightarrow> c\<lparr>ts := (ts c)\<lparr>isInteracting := False, isOrbiting := False,
                               isPinching := False, isP_anning := False\<rparr>\<rparr>
      | [t0] \<Rightarrow> c\<lparr>ts := (ts c)\<lparr>isPinching := False, isP_anning := False, isOrbiting := True,
                                 lastTouchX1 := clientX t0, lastTouchY1 := clientY t0\<rparr>\<rparr>
      | _ \<Rightarrow> c)"

datatype PresetName = front | top | side

text \<open>
  \<open>setCameraPreset\<close> reads the tallest point of the last tick and the number of placed
  blocks from the scene; they are its second and third argument.
\<close>

definition setCameraPreset :: "PresetName \<Rightarrow> real \<Rightarrow> nat \<Rightarrow> Controls \<Rightarrow> Controls" where
  "setCameraPreset preset highestBlockY nObjects c =
     (let (config, lookAtY) =
            (case preset of
               front \<Rightarrow> (CAMERA_PRESET_FRONT, highestBlockY * CAMERA_PRESET_FRONT_lookAtYFactor)
             | top \<Rightarrow> (CAMERA_PRESET_TOP,
                        if nObjects > 0 then highestBlockY / 2 else CAMERA_PRESET_TOP_lookAtY)
             | side \<Rightarrow> (CAMERA_PRESET_SIDE, highestBlockY * CAMERA_PRESET_SIDE_lookAtYFactor))
      in c\<lparr>cs := (cs c)
            \<lparr>lookAt := \<lparr>vx = lookAtX config, vy = lookAtY, vz = lookAtZ config\<rparr>,
             phi := clampPhi (presetPhi config),
             theta := presetTheta config,
             radius := presetRadius config\<rparr>\<rparr>)"

text \<open>
  The camera half of \<open>handleKeyDown\<close> (lines 613 to 624); \<open>key\<close> is
  \<open>event.key.toLowerCase()\<close>.
\<close>

definition handleKeyDownCamera :: "string \<Rightarrow> Controls \<Rightarrow> Controls" where
  "handleKeyDownCamera key c =
     (let l = lookAt (cs c) in
      if key = ''w'' then c\<lparr>cs := (cs c)\<lparr>lookAt := l\<lparr>vz := vz l - CAMERA_PAN_SPEED\<rparr>\<rparr>\<rparr>
      else if key = ''s'' then c\<lparr>cs := (cs c)\<lparr>lookAt := l\<lparr>vz := vz l + CAMERA_PAN_SPEED\<rparr>\<rparr>\<rparr>
      else if key = ''a'' then c\<lparr>cs := (cs c)\<lparr>lookAt := l\<lparr>vx := vx l - CAMERA_PAN_SPEED\<rparr>\<rparr>\<rparr>
      else if key = ''d'' then c\<lparr>cs := (cs c)\<lparr>lookAt := l\<lparr>vx := vx l + CAMERA_PAN_SPEED\<rparr>\<rparr>\<rparr>
      else c)"

text \<open>The inputs of the camera controller, and a sequence of them applied in order.\<close>

datatype CameraInput =
    MouseDown nat real real
  | MouseMove real real
  | MouseUp
  | Wheel real
  | TouchStart "Touch list"
  | TouchMove "Touch list" "Vec3 option"
  | TouchEnd "Touch list"
  | KeyDown string
  | Preset PresetName real nat

fun cameraStep :: "Controls \<Rightarrow> CameraInput \<Rightarrow> Controls" where
  "cameraStep c (MouseDown button x y) = handleMouseDown button x y c"
| "cameraStep c (MouseMove x y) = handleMouseMove x y c"
| "cameraStep c MouseUp = handleMouseUp c"
| "cameraStep c (Wheel deltaY) = handleWheel deltaY c"
| "cameraStep c (TouchStart touches) = handleTouchStart touches c"
| "cameraStep c (TouchMove touches dir) = handleTouchMove touches dir c"
| "cameraStep c (TouchEnd touches) = handleTouchEnd touches c"
| "cameraStep c (KeyDown key) = handleKeyDownCamera key c"
| "cameraStep c (Preset preset highestBlockY nObjects) =
     setCameraPreset preset highestBlockY nObjects c"

definition cameraRun :: "CameraInput list \<Rightarrow> Controls" where
  "cameraRun inputs = foldl cameraStep initialControls inputs"

section \<open>The host application (App.tsx) and one game\<close>

record App =
  currentScore :: real
  highScore :: real
  selectedBlockDefinition :: BlockDefinition
  nextBlockDefinition :: "BlockDefinition option"
  hostIsGameOver :: bool

definition handleGameOver :: "real \<Rightarrow> App \<Rightarrow> App" where
  "handleGameOver finalScore a =
     a\<lparr>hostIsGameOver := True,
       currentScore := finalScore,
       highScore := (if finalScore > highScore a then finalScore else highScore a)\<rparr>"

text \<open>
  \<open>getRandomBlockDefinition\<close> draws a block type at random; the two draws that
  \<open>handleBlockSuccessfullyPlaced\<close> may need are its arguments.
\<close>

definition handleBlockSuccessfullyPlaced :: "BlockShapeType \<Rightarrow> BlockShapeType \<Rightarrow> App \<Rightarrow> App" where
  "handleBlockSuccessfullyPlaced draw1 draw2 a =
     (case nextBlockDefinition a of
        Some n \<Rightarrow> a\<lparr>selectedBlockDefinition := n,
                     nextBlockDefinition := Some (BLOCK_DEFINITIONS draw1)\<rparr>
      | None \<Rightarrow> a\<lparr>selectedBlockDefinition := BLOCK_DEFINITIONS draw1,
                    nextBlockDefinition := Some (BLOCK_DEFINITIONS draw2)\<rparr>)"

fun deliver :: "BlockShapeType \<Rightarrow> BlockShapeType \<Rightarrow> App \<Rightarrow> Event \<Rightarrow> App" where
  "deliver d1 d2 a (ScoreUpdate h) = a\<lparr>currentScore := h\<rparr>"
| "deliver d1 d2 a (GameOver h) = handleGameOver h a"
| "deliver d1 d2 a BlockPlaced = handleBlockSuccessfullyPlaced d1 d2 a"

text \<open>
  After the host's state changes, the scene re-renders: the effect of lines 110 to 116
  copies the props into the refs, and the effect of lines 451 to 527 (which depends on
  \<open>isSceneReady\<close>, \<open>blockToPlace\<close> and \<open>isGameOver\<close>) prepares the ghost and the indicator.
\<close>

definition syncProps :: "App \<Rightarrow> Game \<Rightarrow> Game" where
  "syncProps a s = s\<lparr>isGameOver := hostIsGameOver a,
                       blockToPlace := Some (selectedBlockDefinition a)\<rparr>"

definition hideGhost :: "Game \<Rightarrow> Game" where
  "hideGhost s =
     s\<lparr>ghostBlock := map_option (\<lambda>g. g\<lparr>ghostVisible := False\<rparr>) (ghostBlock s),
       stabilityIndicator :=
         map_option (\<lambda>i. i\<lparr>indicatorVisible := False\<rparr>) (stabilityIndicator s)\<rparr>"

definition origin :: Vec3 where
  "origin = \<lparr>vx = 0, vy = 0, vz = 0\<rparr>"

definition ghostEffect :: "Game \<Rightarrow> Game" where
  "ghostEffect s =
     (if \<not> isSceneReady s \<or> \<not> sceneRefReady s then
        (if sceneRefReady s then s\<lparr>ghostBlock := None, stabilityIndicator := None\<rparr> else s)
      else case blockToPlace s of
        None \<Rightarrow> hideGhost s
      | Some currentBlockDef \<Rightarrow>
          if isGameOver s then hideGhost s
          else
            s\<lparr>ghostBlock := Some
                 (case ghostBlock s of
                    None \<Rightarrow> \<lparr>ghostPosition = origin, ghostRotationY = 0, ghostVisible = True\<rparr>
                  | Some g \<Rightarrow> g\<lparr>ghostVisible := True\<rparr>),
              stabilityIndicator := Some
                 (case stabilityIndicator s of
                    None \<Rightarrow> \<lparr>indicatorColor = GREEN, indicatorPosition = origin,
                             indicatorRotationY = 0, indicatorVisible = True\<rparr>
                  | Some i \<Rightarrow> i\<lparr>indicatorVisible := True\<rparr>),
              ghostBlockXOffset := 0,
              ghostBlockYRotation := 0\<rparr>)"

definition rerender :: "App \<Rightarrow> Game \<Rightarrow> Game" where
  "rerender a s =
     (let s1 = syncProps a s
      in if blockToPlace s1 \<noteq> blockToPlace s \<or> isGameOver s1 \<noteq> isGameOver s
         then ghostEffect s1 else s1)"

text \<open>\<open>a % b\<close> of JavaScript on real numbers: the remainder has the sign of \<open>a\<close>.\<close>

definition jsRemainder :: "real \<Rightarrow> real \<Rightarrow> real" where
  "jsRemainder a b =
     a - b * of_int (if a / b \<ge> 0 then \<lfloor>a / b\<rfloor> else \<lceil>a / b\<rceil>)"

text \<open>
  What can happen during one game: a tick of the loop with the engine's new bodies, the
  place button (with the host's random draws for the blocks that follow), the end of the
  placement cooldown, and the on-screen buttons that move and turn the ghost (rendered
  only while the game is active, the scene is ready and a block is pending). A lateral
  step adds or subtracts the step in binary64; the sum of a finite double and a fifth
  is never infinite, so the rounded value is the new offset.
\<close>

datatype GameInput =
    Tick "Body list"
  | PlaceBlock BlockShapeType BlockShapeType
  | CooldownElapsed
  | MoveGhostLeft
  | MoveGhostRight
  | RotateGhost bool

definition ghostButtonsShown :: "Game \<Rightarrow> bool" where
  "ghostButtonsShown s = (\<not> isGameOver s \<and> isSceneReady s \<and> blockToPlace s \<noteq> None)"

fun sceneStep :: "Game \<Rightarrow> GameInput \<Rightarrow> Game \<times> Event list" where
  "sceneStep s (Tick stepped) = animate stepped s"
| "sceneStep s (PlaceBlock d1 d2) = internalAddBlock s"
| "sceneStep s CooldownElapsed = (cooldownElapsed s, [])"
| "sceneStep s MoveGhostLeft =
     (if ghostButtonsShown s
      then s\<lparr>ghostBlockXOffset :=
              nearestDouble (ghostBlockXOffset s - GHOST_BLOCK_X_MOVEMENT_STEP)\<rparr>
      else s, [])"
| "sceneStep s MoveGhostRight =
     (if ghostButtonsShown s
      then s\<lparr>ghostBlockXOffset :=
              nearestDouble (ghostBlockXOffset s + GHOST_BLOCK_X_MOVEMENT_STEP)\<rparr>
      else s, [])"
| "sceneStep s (RotateGhost fine) =
     (if ghostButtonsShown s
      then s\<lparr>ghostBlockYRotation :=
                jsRemainder (ghostBlockYRotation s
                   + (if fine then GHOST_BLOCK_FINE_ROTATION_STEP else GHOST_BLOCK_ROTATION_STEP))
                  (2 * pi)\<rparr>
      else s, [])"

fun draws :: "GameInput \<Rightarrow> BlockShapeType \<times> BlockShapeType" where
  "draws (PlaceBlock d1 d2) = (d1, d2)"
| "draws _ = (CUBE_S, CUBE_S)"

text \<open>
  One step of a game: the scene handles the input, the host receives the callbacks in
  order, and the scene re-renders with the host's new state before the next input.
\<close>

definition gameStep :: "App \<times> Game \<Rightarrow> GameInput \<Rightarrow> (App \<times> Game) \<times> Event list" where
  "gameStep st input =
     (let (s1, evs) = sceneStep (snd st) input;
          a1 = foldl (deliver (fst (draws input)) (snd (draws input))) (fst st) evs
      in ((a1, rerender a1 s1), evs))"

fun gameRun :: "App \<times> Game \<Rightarrow> GameInput list \<Rightarrow> (App \<times> Game) \<times> Event list" where
  "gameRun st [] = (st, [])"
| "gameRun st (input # inputs) =
     (let (st1, evs) = gameStep st input;
          (st2, evs2) = gameRun st1 inputs
      in (st2, evs @ evs2))"

text \<open>
  A fresh game: the host after \<open>initializeGameBlocks\<close> with two random draws and a stored
  high score, and the scene after its set-up effects have run.
\<close>

definition newGame :: "real \<Rightarrow> BlockShapeType \<Rightarrow> BlockShapeType \<Rightarrow> App \<times> Game" where
  "newGame stored d1 d2 =
     (\<lparr>currentScore = 0, highScore = stored,
       selectedBlockDefinition = BLOCK_DEFINITIONS d1,
       nextBlockDefinition = Some (BLOCK_DEFINITIONS d2),
       hostIsGameOver = False\<rparr>,
      ghostEffect
        \<lparr>worldReady = True, sceneRefReady = True, cameraReady = True, rendererReady = True,
         isSceneReady = True, physicsObjects = [], contactMaterials = [],
         ghostBlock = None, stabilityIndicator = None,
         ghostBlockXOffset = 0, ghostBlockYRotation = 0,
         blockToPlace = Some (BLOCK_DEFINITIONS d1),
         isGameOver = False, canAddBlock = True,
         maxAchievedHeightInGame = 0, currentHighestBlockY = GROUND_LEVEL,
         towerInstabilityVignetteStyle = StyleEmpty, nextId = 0\<rparr>)"

fun gameOverCalls :: "Event list \<Rightarrow> real list" where
  "gameOverCalls [] = []"
| "gameOverCalls (GameOver h # evs) = h # gameOverCalls evs"
| "gameOverCalls (_ # evs) = gameOverCalls evs"

fun scoreUpdates :: "Event list \<Rightarrow> real list" where
  "scoreUpdates [] = []"
| "scoreUpdates (ScoreUpdate h # evs) = h # scoreUpdates evs"
| "scoreUpdates (_ # evs) = scoreUpdates evs"

text \<open>
  The terminal condition of a tick: after the engine's step, the scan of the blocks sets
  \<open>anyBlockFallenOffWorld\<close> or \<open>anyBlockTippedOverGameEnd\<close>.
\<close>

definition terminalCondition :: "Body list \<Rightarrow> Game \<Rightarrow> bool" where
  "terminalCondition stepped s =
     (let scan = scanBlocks (isGameOver s) (worldStep stepped (physicsObjects s))
      in anyBlockFallenOffWorld scan \<or> anyBlockTippedOverGameEnd scan)"

section \<open>Example scenes\<close>

text \<open>
  A placed block of a catalogue type at a given position with a given up-vector dot
  product, and a ready, active scene with a pending block, a ghost offset, a ghost
  rotation and a list of placed blocks.
\<close>

definition blockAt :: "BlockShapeType \<Rightarrow> real \<Rightarrow> real \<Rightarrow> real \<Rightarrow> real \<Rightarrow> PhysicsObject" where
  "blockAt t px py pz d =
     \<lparr>body = \<lparr>position = \<lparr>vx = px, vy = py, vz = pz\<rparr>, upDot = d\<rparr>,
      ident = 0, objDefinition = BLOCK_DEFINITIONS t\<rparr>"

definition readyScene :: "BlockShapeType \<Rightarrow> real \<Rightarrow> real \<Rightarrow> PhysicsObject list \<Rightarrow> Game" where
  "readyScene t xOffset yRotation objs =
     \<lparr>worldReady = True, sceneRefReady = True, cameraReady = True, rendererReady = True,
      isSceneReady = True, physicsObjects = objs, contactMaterials = [],
      ghostBlock = Some \<lparr>ghostPosition = origin, ghostRotationY = yRotation, ghostVisible = True\<rparr>,
      stabilityIndicator = Some \<lparr>indicatorColor = GREEN, indicatorPosition = origin,
                                  indicatorRotationY = yRotation, indicatorVisible = True\<rparr>,
      ghostBlockXOffset = xOffset, ghostBlockYRotation = yRotation,
      blockToPlace = Some (BLOCK_DEFINITIONS t),
      isGameOver = False, canAddBlock = True,
      maxAchievedHeightInGame = 0, currentHighestBlockY = GROUND_LEVEL,
      towerInstabilityVignetteStyle = StyleEmpty, nextId = length objs\<rparr>"

section \<open>Properties of the number model\<close>

text \<open>
  Rounding moves a number by at most half the spacing of its binade, it leaves the
  numbers of the binade's grid alone, and in the normal range the binade found is the
  one that holds the number.
\<close>

lemma roundHalfEven_error: "\<bar>of_int (roundHalfEven q) - q\<bar> \<le> 1 / 2"
proof -
  have "of_int \<lfloor>q\<rfloor> \<le> q" "q < of_int \<lfloor>q\<rfloor> + 1" by linarith+
  then show ?thesis by (auto simp: roundHalfEven_def Let_def)
qed

lemma roundHalfEven_of_int: "roundHalfEven (of_int m) = m"
  by (simp add: roundHalfEven_def)

lemma pow2_pos: "0 < pow2 k"
  by (simp add: pow2_def)

lemma nearestDouble_error:
  "\<bar>nearestDouble x - x\<bar> \<le> pow2 (exponentOf \<bar>x\<bar> - 52) / 2"
proof (cases "x = 0")
  case True
  then show ?thesis using pow2_pos[of "exponentOf \<bar>x\<bar> - 52"] by (simp add: nearestDouble_def)
next
  case False
  define u where "u = pow2 (exponentOf \<bar>x\<bar> - 52)"
  have u: "0 < u" by (simp add: u_def pow2_pos)
  have "\<bar>of_int (roundHalfEven (x / u)) - x / u\<bar> \<le> 1 / 2" by (rule roundHalfEven_error)
  then have "\<bar>of_int (roundHalfEven (x / u)) - x / u\<bar> * u \<le> 1 / 2 * u"
    using u by (intro mult_right_mono) simp_all
  moreover have "\<bar>of_int (roundHalfEven (x / u)) - x / u\<bar> * u
      = \<bar>of_int (roundHalfEven (x / u)) * u - x\<bar>"
  proof -
    have "of_int (roundHalfEven (x / u)) * u - x = (of_int (roundHalfEven (x / u)) - x / u) * u"
      using u by (simp add: field_simps)
    then show ?thesis using u by (simp add: abs_mult)
  qed
  ultimately show ?thesis
    using False by (simp add: nearestDouble_def Let_def u_def)
qed

lemma nearestDouble_on_grid:
  assumes "x = of_int m * pow2 (exponentOf \<bar>x\<bar> - 52)"
  shows "nearestDouble x = x"
proof (cases "x = 0")
  case True
  then show ?thesis by (simp add: nearestDouble_def)
next
  case False
  define u where "u = pow2 (exponentOf \<bar>x\<bar> - 52)"
  have u: "0 < u" by (simp add: u_def pow2_pos)
  have "x / u = of_int m" using assms u by (simp add: u_def[symmetric])
  then have r: "roundHalfEven (x / u) = m" by (simp add: roundHalfEven_of_int)
  have "nearestDouble x = of_int (roundHalfEven (x / u)) * u"
    using False by (simp add: nearestDouble_def Let_def u_def)
  also have "\<dots> = of_int m * u" by (simp only: r)
  also have "\<dots> = x" using assms by (simp only: u_def)
  finally show ?thesis .
qed

lemma binadeUp_bounds:
  assumes "1 \<le> a" "a < 2 ^ Suc n"
  shows "0 \<le> binadeUp n a \<and> 2 ^ nat (binadeUp n a) \<le> a \<and> a < 2 * 2 ^ nat (binadeUp n a)"
  using assms
proof (induction n arbitrary: a)
  case 0
  then show ?case by simp
next
  case (Suc n)
  show ?case
  proof (cases "a < 2")
    case True
    with Suc.prems show ?thesis by simp
  next
    case False
    then have "1 \<le> a / 2" "a / 2 < 2 ^ Suc n" using Suc.prems by simp_all
    from Suc.IH[OF this] have k: "0 \<le> binadeUp n (a / 2)"
      "2 ^ nat (binadeUp n (a / 2)) \<le> a / 2" "a / 2 < 2 * 2 ^ nat (binadeUp n (a / 2))"
      by simp_all
    have n: "nat (1 + binadeUp n (a / 2)) = Suc (nat (binadeUp n (a / 2)))"
      using k(1) by simp
    show ?thesis using False k by (simp add: n)
  qed
qed

lemma binadeDown_bounds:
  assumes "0 < a" "a < 1" "1 \<le> a * 2 ^ n"
  shows "binadeDown n a \<le> 0 \<and> 1 \<le> a * 2 ^ nat (- binadeDown n a)
       \<and> a * 2 ^ nat (- binadeDown n a) < 2"
  using assms
proof (induction n arbitrary: a)
  case 0
  then show ?case by simp
next
  case (Suc n)
  show ?case
  proof (cases "1 \<le> a * 2")
    case True
    then have "binadeDown (Suc n) a = binadeDown n (a * 2) - 1" using Suc.prems by simp
    moreover have "binadeDown n (a * 2) = 0" using True by (cases n) simp_all
    ultimately show ?thesis using True Suc.prems by simp
  next
    case False
    then have p: "0 < a * 2" "a * 2 < 1" "1 \<le> a * 2 * 2 ^ n" using Suc.prems by simp_all
    from Suc.IH[OF p] have k: "binadeDown n (a * 2) \<le> 0"
      "1 \<le> a * 2 * 2 ^ nat (- binadeDown n (a * 2))"
      "a * 2 * 2 ^ nat (- binadeDown n (a * 2)) < 2" by simp_all
    have e: "binadeDown (Suc n) a = binadeDown n (a * 2) - 1" using Suc.prems by simp
    have n: "nat (- (binadeDown n (a * 2) - 1)) = Suc (nat (- binadeDown n (a * 2)))"
      using k(1) by simp
    have m: "a * 2 ^ Suc (nat (- binadeDown n (a * 2)))
        = a * 2 * 2 ^ nat (- binadeDown n (a * 2))" by simp
    have "binadeDown n (a * 2) - 1 \<le> 0" using k(1) by simp
    moreover have "1 \<le> a * 2 ^ nat (- (binadeDown n (a * 2) - 1))"
      "a * 2 ^ nat (- (binadeDown n (a * 2) - 1)) < 2"
      unfolding n m using k(2,3) by simp_all
    ultimately show ?thesis unfolding e by blast
  qed
qed

lemma exponentOf_normal:
  assumes "pow2 (- 1022) \<le> a" "a < pow2 1024"
  shows "pow2 (exponentOf a) \<le> a \<and> a < 2 * pow2 (exponentOf a)
       \<and> - 1022 \<le> exponentOf a \<and> exponentOf a \<le> 1023"
proof (cases "1 \<le> a")
  case True
  have "a < 2 ^ Suc 1023" using assms(2) by (simp add: pow2_def)
  then have "a < 2 ^ Suc 1024" by (rule less_trans) simp
  from binadeUp_bounds[OF True this]
  have k: "0 \<le> binadeUp 1024 a" "2 ^ nat (binadeUp 1024 a) \<le> a"
    "a < 2 * 2 ^ nat (binadeUp 1024 a)" by simp_all
  have "binadeUp 1024 a \<le> 1023"
  proof (rule ccontr)
    assume "\<not> binadeUp 1024 a \<le> 1023"
    then have "1024 \<le> nat (binadeUp 1024 a)" by simp
    then have "(2::real) ^ 1024 \<le> 2 ^ nat (binadeUp 1024 a)"
      by (intro power_increasing) simp_all
    with k(2) assms(2) show False by (simp add: pow2_def)
  qed
  with k True show ?thesis by (simp add: exponentOf_def pow2_def)
next
  case False
  have pos: "0 < a" using assms(1) pow2_pos[of "- 1022"] by linarith
  have "1 \<le> a * 2 ^ 1022" using assms(1) by (simp add: pow2_def field_simps)
  from binadeDown_bounds[OF pos _ this] False
  have k: "binadeDown 1022 a \<le> 0" "1 \<le> a * 2 ^ nat (- binadeDown 1022 a)"
    "a * 2 ^ nat (- binadeDown 1022 a) < 2" by simp_all
  have lo: "- 1022 \<le> binadeDown 1022 a"
  proof (rule ccontr)
    assume "\<not> - 1022 \<le> binadeDown 1022 a"
    then have "1023 \<le> nat (- binadeDown 1022 a)" by simp
    then have "(2::real) ^ 1023 \<le> 2 ^ nat (- binadeDown 1022 a)"
      by (intro power_increasing) simp_all
    then have "a * 2 ^ 1023 \<le> a * 2 ^ nat (- binadeDown 1022 a)"
      using pos by (intro mult_left_mono) simp_all
    moreover have "2 \<le> a * 2 ^ 1023"
      using \<open>1 \<le> a * 2 ^ 1022\<close> by simp
    ultimately show False using k(3) by linarith
  qed
  show ?thesis
  proof (cases "binadeDown 1022 a = 0")
    case True
    with k False show ?thesis by (simp add: exponentOf_def pow2_def)
  next
    case nz: False
    then have neg: "\<not> 0 \<le> binadeDown 1022 a" using k(1) by simp
    have p: "0 < (2::real) ^ nat (- binadeDown 1022 a)" by simp
    from k(2,3) p have "1 / 2 ^ nat (- binadeDown 1022 a) \<le> a"
      "a < 2 * (1 / 2 ^ nat (- binadeDown 1022 a))"
      by (simp_all add: field_simps)
    with False neg lo k(1) show ?thesis by (simp add: exponentOf_def pow2_def)
  qed
qed

text \<open>
  Evaluation on numerals, and the doubles that some literals and sums denote: the
  literal 0.2 is 0.200000000000000011102230246251565..., and 0.1 + 0.2 is
  0.3000000000000000444089209850062616...
\<close>

lemma binadeUp_numeral:
  "binadeUp (numeral k) a = (if a < 2 then 0 else 1 + binadeUp (pred_numeral k) (a / 2))"
  by (simp add: numeral_eq_Suc)

lemma binadeDown_numeral:
  "binadeDown (numeral k) a = (if 1 \<le> a then 0 else binadeDown (pred_numeral k) (a * 2) - 1)"
  by (simp add: numeral_eq_Suc)

lemmas number_defs = toDouble_def nearestDouble_def exponentOf_def pow2_def roundHalfEven_def
  jsSub_def binadeUp_numeral binadeDown_numeral Let_def


lemma sum_of_tenth_and_fifth:
  "jsAdd (Finite (nearestDouble 0.1)) (Finite (nearestDouble 0.2))
     = Finite (1351079888211149 / 4503599627370496)"
  by (simp add: number_defs split del: if_split)


section \<open>Properties of the stability evaluator\<close>

lemma foldl_highestStep_Some:
  "\<exists>b. foldl highestStep (Some h) objs = Some b \<and> (b = h \<or> b \<in> set objs)
      \<and> vy (position (body h)) \<le> vy (position (body b))
      \<and> (\<forall>obj\<in>set objs. vy (position (body obj)) \<le> vy (position (body b)))"
proof (induction objs arbitrary: h)
  case Nil
  then show ?case by simp
next
  case (Cons a objs)
  show ?case
  proof (cases "vy (position (body a)) > vy (position (body h))")
    case True
    from Cons.IH[of a] obtain b where
      "foldl highestStep (Some a) objs = Some b" "b = a \<or> b \<in> set objs"
      "vy (position (body a)) \<le> vy (position (body b))"
      "\<forall>obj\<in>set objs. vy (position (body obj)) \<le> vy (position (body b))" by blast
    with True show ?thesis by auto
  next
    case False
    from Cons.IH[of h] obtain b where
      "foldl highestStep (Some h) objs = Some b" "b = h \<or> b \<in> set objs"
      "vy (position (body h)) \<le> vy (position (body b))"
      "\<forall>obj\<in>set objs. vy (position (body obj)) \<le> vy (position (body b))" by blast
    with False show ?thesis by auto
  qed
qed

lemma findHighestBlock_max:
  assumes "objs \<noteq> []"
  shows "\<exists>b\<in>set objs. findHighestBlock objs = Some b
           \<and> (\<forall>obj\<in>set objs. vy (position (body obj)) \<le> vy (position (body b)))"
proof -
  obtain a rest where objs: "objs = a # rest" using assms by (cases objs) auto
  from foldl_highestStep_Some[of a rest] obtain b where
    "foldl highestStep (Some a) rest = Some b" "b = a \<or> b \<in> set rest"
    "vy (position (body a)) \<le> vy (position (body b))"
    "\<forall>obj\<in>set rest. vy (position (body obj)) \<le> vy (position (body b))" by blast
  then show ?thesis unfolding objs findHighestBlock_def by auto
qed

lemma stability_against_target:
  assumes "findHighestBlock (physicsObjects s) = Some b"
  shows "calculatePlacementStability s = calculatePlacementStability (s\<lparr>physicsObjects := [b]\<rparr>)"
proof -
  have ne: "physicsObjects s \<noteq> []"
    using assms by (auto simp: findHighestBlock_def)
  have one: "findHighestBlock [b] = Some b" by (simp add: findHighestBlock_def)
  show ?thesis
    unfolding calculatePlacementStability_def using assms ne one
    by (cases "blockToPlace s") simp_all
qed



text \<open>
  Three steps to the left, over a small cube at x = 0.2: the difference rounds to the
  double of 0.8, which is the YELLOW bound: YELLOW.
\<close>

lemma left_steps_over_cube:
  "ghostBlockXOffset (fst (sceneStep (fst (sceneStep (fst (sceneStep
      (readyScene RECT_WIDE 0 0 objs) MoveGhostLeft)) MoveGhostLeft)) MoveGhostLeft))
     = - (1351079888211149 / 2251799813685248)"
  "calculatePlacementStability
     (readyScene RECT_WIDE (- (1351079888211149 / 2251799813685248)) 0
        [blockAt CUBE_S (nearestDouble 0.2) 0.5 0 1]) = YELLOW"
  by (simp_all add: readyScene_def ghostButtonsShown_def GHOST_BLOCK_X_MOVEMENT_STEP_def
      calculatePlacementStability_def findHighestBlock_def blockAt_def BLOCK_DEFINITIONS_def
      PLACEMENT_STABILITY_GREEN_THRESHOLD_BOX_def PLACEMENT_STABILITY_YELLOW_THRESHOLD_BOX_def
      number_defs split del: if_split)

text \<open>
  Claim C6 as stated fails: a box ghost centred over a cylinder is judged by the radial
  rule and is GREEN, not the YELLOW fallback.
\<close>

theorem mixed_shapes_counterexample:
  "shape (BLOCK_DEFINITIONS CUBE_S) = Box
   \<and> shape (objDefinition (blockAt CYLINDER_S 0 0.75 0 1)) = Cylinder
   \<and> calculatePlacementStability (readyScene CUBE_S 0 0 [blockAt CYLINDER_S 0 0.75 0 1]) = GREEN
   \<and> calculatePlacementStability (readyScene CUBE_S 0 0 [blockAt CYLINDER_S 0 0.75 0 1]) \<noteq> YELLOW"
  by (simp add: calculatePlacementStability_def readyScene_def blockAt_def findHighestBlock_def
      BLOCK_DEFINITIONS_def PLACEMENT_STABILITY_GREEN_THRESHOLD_CYLINDER_def
      PLACEMENT_STABILITY_YELLOW_THRESHOLD_CYLINDER_def number_defs split del: if_split)

text \<open>
  Claim C6, amended. When exactly one of the pending block and the comparison target is
  a cylinder, the verdict is computed by the radial rule: with
  \<open>radialDistance = sqrt (offsetX * offsetX + offsetZ * offsetZ)\<close> it is GREEN iff
  \<open>radialDistance <= max(0, targetRadius - ghostRadius) + ghostRadius * 0.3\<close>, otherwise
  YELLOW iff the same holds with factor 0.7, otherwise RED, where both radii are the
  blocks' \<open>dimensions.x\<close> and every operation is the language's, on binary64 numbers.
  The YELLOW fallback is not used.
\<close>

theorem mixed_shapes_use_radial_rule:
  assumes "ghostBlock s \<noteq> None" "blockToPlace s = Some ghostDef"
    "findHighestBlock (physicsObjects s) = Some t"
    "shape ghostDef \<noteq> shape (objDefinition t)"
  shows "calculatePlacementStability s =
    (let offsetX = jsAbs (jsSub (Finite (ghostBlockXOffset s)) (Finite (vx (position (body t)))));
         offsetZ = jsAbs (jsSub (Finite 0) (Finite (vz (position (body t)))));
         radialDistance = jsSqrt (jsAdd (jsMul offsetX offsetX) (jsMul offsetZ offsetZ));
         ghostRadius = Finite (dim_x (dimensions ghostDef));
         targetRadius = Finite (dim_x (dimensions (objDefinition t)));
         greenFactor = Finite (nearestDouble 0.3);
         yellowFactor = Finite (nearestDouble 0.7)
     in if jsLe radialDistance
             (jsAdd (jsMax (Finite 0) (jsSub targetRadius ghostRadius))
                (jsMul ghostRadius greenFactor)) then GREEN
        else if jsLe radialDistance
             (jsAdd (jsMax (Finite 0) (jsSub targetRadius ghostRadius))
                (jsMul ghostRadius yellowFactor)) then YELLOW
        else RED)"
proof -
  have ne: "physicsObjects s \<noteq> []"
    using assms(3) by (auto simp: findHighestBlock_def)
  obtain g where g: "ghostBlock s = Some g" using assms(1) by auto
  show ?thesis
    using g assms(2,3,4) ne
    by (cases "shape ghostDef"; cases "shape (objDefinition t)";
        simp add: calculatePlacementStability_def Let_def
          PLACEMENT_STABILITY_GREEN_THRESHOLD_CYLINDER_def
          PLACEMENT_STABILITY_YELLOW_THRESHOLD_CYLINDER_def)
qed

text \<open>
  A cylinder ghost at offset 0 and a cube half a unit to the right: the radial distance
  0.5 exceeds both bounds (about 0.22 and 0.38): RED.
\<close>

theorem mixed_shapes_use_radial_rule_witness:
  "ghostBlock (readyScene CYLINDER_S 0 0 [blockAt CUBE_S 0.5 0.5 0 1]) \<noteq> None
   \<and> blockToPlace (readyScene CYLINDER_S 0 0 [blockAt CUBE_S 0.5 0.5 0 1])
       = Some (BLOCK_DEFINITIONS CYLINDER_S)
   \<and> findHighestBlock (physicsObjects (readyScene CYLINDER_S 0 0 [blockAt CUBE_S 0.5 0.5 0 1]))
       = Some (blockAt CUBE_S 0.5 0.5 0 1)
   \<and> shape (BLOCK_DEFINITIONS CYLINDER_S) \<noteq> shape (objDefinition (blockAt CUBE_S 0.5 0.5 0 1))
   \<and> calculatePlacementStability (readyScene CYLINDER_S 0 0 [blockAt CUBE_S 0.5 0.5 0 1]) = RED"
proof -
  let ?s = "readyScene CYLINDER_S 0 0 [blockAt CUBE_S 0.5 0.5 0 1]"
  have h1: "ghostBlock ?s \<noteq> None" by (simp add: readyScene_def)
  have h2: "blockToPlace ?s = Some (BLOCK_DEFINITIONS CYLINDER_S)" by (simp add: readyScene_def)
  have h3: "findHighestBlock (physicsObjects ?s) = Some (blockAt CUBE_S 0.5 0.5 0 1)"
    by (simp add: readyScene_def findHighestBlock_def)
  have h4: "shape (BLOCK_DEFINITIONS CYLINDER_S) \<noteq> shape (objDefinition (blockAt CUBE_S 0.5 0.5 0 1))"
    by (simp add: BLOCK_DEFINITIONS_def blockAt_def)
  have r: "sqrt (1 / 4) = 1 / 2"
    by (rule real_sqrt_unique) (simp_all add: power2_eq_square)
  have "calculatePlacementStability ?s = RED"
    unfolding mixed_shapes_use_radial_rule[OF h1 h2 h3 h4]
    by (simp add: readyScene_def blockAt_def BLOCK_DEFINITIONS_def number_defs r
        split del: if_split)
  with h1 h2 h3 h4 show ?thesis by blast
qed

text \<open>
  Claim C9. With at least two placed blocks, the evaluator's comparison target is a
  placed block whose body centre height is maximal, and the verdict is the verdict
  against that block alone. That block need not have the highest top surface: with a
  tall box at the origin (centre 1, top 2) and a cube at x = 3 (centre 1.2, top 1.7),
  the target is the cube, and a ghost at offset 0 is RED although it is GREEN against
  the tall box under it.
\<close>

theorem target_is_highest_centre:
  "(2 \<le> length (physicsObjects s) \<longrightarrow>
      (\<exists>b\<in>set (physicsObjects s).
          (\<forall>obj\<in>set (physicsObjects s). vy (position (body obj)) \<le> vy (position (body b)))
          \<and> findHighestBlock (physicsObjects s) = Some b
          \<and> calculatePlacementStability s
              = calculatePlacementStability (s\<lparr>physicsObjects := [b]\<rparr>)))
   \<and> (let tall = blockAt RECT_TALL 0 1 0 1; cube = blockAt CUBE_S 3 1.2 0 1
      in findHighestBlock [tall, cube] = Some cube
         \<and> vy (position (body cube)) + dim_y (dimensions (objDefinition cube))
             < vy (position (body tall)) + dim_y (dimensions (objDefinition tall))
         \<and> calculatePlacementStability (readyScene CUBE_S 0 0 [tall, cube]) = RED
         \<and> calculatePlacementStability (readyScene CUBE_S 0 0 [tall]) = GREEN)"
proof (intro conjI impI)
  assume "2 \<le> length (physicsObjects s)"
  then have "physicsObjects s \<noteq> []" by auto
  from findHighestBlock_max[OF this] stability_against_target
  show "\<exists>b\<in>set (physicsObjects s).
          (\<forall>obj\<in>set (physicsObjects s). vy (position (body obj)) \<le> vy (position (body b)))
          \<and> findHighestBlock (physicsObjects s) = Some b
          \<and> calculatePlacementStability s
              = calculatePlacementStability (s\<lparr>physicsObjects := [b]\<rparr>)"
    by blast
next
  show "let tall = blockAt RECT_TALL 0 1 0 1; cube = blockAt CUBE_S 3 1.2 0 1
      in findHighestBlock [tall, cube] = Some cube
         \<and> vy (position (body cube)) + dim_y (dimensions (objDefinition cube))
             < vy (position (body tall)) + dim_y (dimensions (objDefinition tall))
         \<and> calculatePlacementStability (readyScene CUBE_S 0 0 [tall, cube]) = RED
         \<and> calculatePlacementStability (readyScene CUBE_S 0 0 [tall]) = GREEN"
    by (simp add: calculatePlacementStability_def readyScene_def blockAt_def findHighestBlock_def
      BLOCK_DEFINITIONS_def PLACEMENT_STABILITY_GREEN_THRESHOLD_BOX_def
      PLACEMENT_STABILITY_YELLOW_THRESHOLD_BOX_def number_defs split del: if_split)
qed

theorem target_is_highest_centre_witness:
  "2 \<le> length (physicsObjects
        (readyScene CUBE_S 0 0 [blockAt RECT_TALL 0 1 0 1, blockAt CUBE_S 3 1.2 0 1]))
   \<and> (\<exists>b\<in>set (physicsObjects
          (readyScene CUBE_S 0 0 [blockAt RECT_TALL 0 1 0 1, blockAt CUBE_S 3 1.2 0 1])).
        findHighestBlock (physicsObjects
          (readyScene CUBE_S 0 0 [blockAt RECT_TALL 0 1 0 1, blockAt CUBE_S 3 1.2 0 1])) = Some b)"
proof -
  let ?s = "readyScene CUBE_S 0 0 [blockAt RECT_TALL 0 1 0 1, blockAt CUBE_S 3 1.2 0 1]"
  have h: "2 \<le> length (physicsObjects ?s)" by (simp add: readyScene_def)
  from target_is_highest_centre[of ?s] h
  have "\<exists>b\<in>set (physicsObjects ?s). findHighestBlock (physicsObjects ?s) = Some b"
    by blast
  with h show ?thesis by blast
qed

text \<open>
  Claim C10. The verdict depends only on whether the ghost mesh exists, the pending
  block, the ghost's x-offset and the placed blocks: two scenes that agree on these give
  the same verdict, whatever the ghost's yaw rotation is in each.
\<close>

theorem stability_independent_of_rotation:
  assumes "ghostBlockXOffset s = ghostBlockXOffset s'" "blockToPlace s = blockToPlace s'"
    "physicsObjects s = physicsObjects s'" "(ghostBlock s = None) = (ghostBlock s' = None)"
  shows "calculatePlacementStability s = calculatePlacementStability s'"
  unfolding calculatePlacementStability_def assms(1,2,3) using assms(4) by simp

theorem stability_independent_of_rotation_witness:
  "ghostBlockYRotation (readyScene CUBE_S 0.4 0 [blockAt RECT_WIDE 0 0.25 0 1])
     \<noteq> ghostBlockYRotation (readyScene CUBE_S 0.4 1 [blockAt RECT_WIDE 0 0.25 0 1])
   \<and> calculatePlacementStability (readyScene CUBE_S 0.4 0 [blockAt RECT_WIDE 0 0.25 0 1])
     = calculatePlacementStability (readyScene CUBE_S 0.4 1 [blockAt RECT_WIDE 0 0.25 0 1])"
proof -
  have "calculatePlacementStability (readyScene CUBE_S 0.4 0 [blockAt RECT_WIDE 0 0.25 0 1])
     = calculatePlacementStability (readyScene CUBE_S 0.4 1 [blockAt RECT_WIDE 0 0.25 0 1])"
    by (rule stability_independent_of_rotation) (simp_all add: readyScene_def)
  then show ?thesis by (simp add: readyScene_def)
qed

section \<open>Properties of the tower health monitor\<close>

lemma scan_tipped:
  "anyBlockTippedOverGameEnd (foldl (scanBlock n over) acc objs) =
     (anyBlockTippedOverGameEnd acc \<or>
       (2 \<le> n \<and> \<not> over \<and> (\<exists>obj\<in>set objs. upDot (body obj) < FALLEN_BLOCK_DOT_THRESHOLD)))"
  by (induction objs arbitrary: acc) (auto simp: scanBlock_def Let_def)

lemma scan_fallen:
  "anyBlockFallenOffWorld (foldl (scanBlock n over) acc objs) =
     (anyBlockFallenOffWorld acc \<or>
       (\<not> over \<and> (\<exists>obj\<in>set objs. vy (position (body obj)) < GAME_OVER_FALL_THRESHOLD_Y)))"
  by (induction objs arbitrary: acc) (auto simp: scanBlock_def Let_def)

text \<open>
  Claim C3. With fewer than two placed blocks a tick never sets the tipped-over flag,
  whatever the blocks' orientation. The flag is set exactly when at least two blocks
  exist, the game is active and some block's up-vector dot product is below the tip
  threshold; and one iteration leaves the flag as it is when fewer than two blocks
  exist, the game is over, or an earlier block of the same tick has already set it.
\<close>

theorem tip_over_needs_two_blocks:
  "(length objs < 2 \<longrightarrow> \<not> anyBlockTippedOverGameEnd (scanBlocks over objs))
   \<and> (anyBlockTippedOverGameEnd (scanBlocks over objs) =
        (2 \<le> length objs \<and> \<not> over
          \<and> (\<exists>obj\<in>set objs. upDot (body obj) < FALLEN_BLOCK_DOT_THRESHOLD)))
   \<and> (n < 2 \<or> over \<or> anyBlockTippedOverGameEnd acc \<longrightarrow>
        anyBlockTippedOverGameEnd (scanBlock n over acc obj) = anyBlockTippedOverGameEnd acc)"
proof -
  have eq: "anyBlockTippedOverGameEnd (scanBlocks over objs) =
        (2 \<le> length objs \<and> \<not> over
          \<and> (\<exists>obj\<in>set objs. upDot (body obj) < FALLEN_BLOCK_DOT_THRESHOLD))"
    by (simp add: scanBlocks_def scan_tipped)
  have step: "n < 2 \<or> over \<or> anyBlockTippedOverGameEnd acc \<longrightarrow>
        anyBlockTippedOverGameEnd (scanBlock n over acc obj) = anyBlockTippedOverGameEnd acc"
    by (auto simp: scanBlock_def Let_def)
  from eq step show ?thesis by auto
qed

text \<open>A single block lying upside down (dot product -1) does not tip the tower over.\<close>

theorem tip_over_needs_two_blocks_witness:
  "length [blockAt RECT_TALL 0 0.25 0 (- 1)] < 2
   \<and> upDot (body (blockAt RECT_TALL 0 0.25 0 (- 1))) < FALLEN_BLOCK_DOT_THRESHOLD
   \<and> \<not> anyBlockTippedOverGameEnd (scanBlocks False [blockAt RECT_TALL 0 0.25 0 (- 1)])"
proof -
  have h: "length [blockAt RECT_TALL 0 0.25 0 (- 1)] < 2" by simp
  have d: "upDot (body (blockAt RECT_TALL 0 0.25 0 (- 1))) < FALLEN_BLOCK_DOT_THRESHOLD"
    by (simp add: blockAt_def FALLEN_BLOCK_DOT_THRESHOLD_def)
  from tip_over_needs_two_blocks[of "[blockAt RECT_TALL 0 0.25 0 (- 1)]" False] h
  have "\<not> anyBlockTippedOverGameEnd (scanBlocks False [blockAt RECT_TALL 0 0.25 0 (- 1)])"
    by blast
  with h d show ?thesis by blast
qed




section \<open>Properties of the commit-placement operation\<close>

text \<open>
  Claim C8. \<open>internalAddBlock\<close> changes nothing and invokes no callback (no body, no
  block in the registry, ghost offset and rotation as before) whenever the game is
  over, the physics world or the scene is not ready, or the cooldown of the last
  placement has not elapsed.
\<close>

theorem place_rejected:
  assumes "isGameOver s \<or> \<not> worldReady s \<or> \<not> sceneRefReady s \<or> \<not> canAddBlock s"
  shows "internalAddBlock s = (s, [])"
  using assms by (auto simp: internalAddBlock_def split: option.splits)

text \<open>
  During the cooldown a ready scene rejects the placement that it accepts otherwise.
\<close>

theorem place_rejected_witness:
  "\<not> canAddBlock ((readyScene CUBE_S 0.2 0 [])\<lparr>canAddBlock := False\<rparr>)
   \<and> internalAddBlock ((readyScene CUBE_S 0.2 0 [])\<lparr>canAddBlock := False\<rparr>)
       = ((readyScene CUBE_S 0.2 0 [])\<lparr>canAddBlock := False\<rparr>, [])
   \<and> snd (internalAddBlock (readyScene CUBE_S 0.2 0 [])) = [BlockPlaced]
   \<and> length (physicsObjects (fst (internalAddBlock (readyScene CUBE_S 0.2 0 [])))) = 1"
proof -
  let ?s = "(readyScene CUBE_S 0.2 0 [])\<lparr>canAddBlock := False\<rparr>"
  have h: "isGameOver ?s \<or> \<not> worldReady ?s \<or> \<not> sceneRefReady ?s \<or> \<not> canAddBlock ?s"
    by simp
  have ok: "snd (internalAddBlock (readyScene CUBE_S 0.2 0 [])) = [BlockPlaced]
      \<and> length (physicsObjects (fst (internalAddBlock (readyScene CUBE_S 0.2 0 [])))) = 1"
    by (simp add: internalAddBlock_def readyScene_def Let_def)
  from place_rejected[OF h] ok show ?thesis by simp
qed

section \<open>Properties of one game\<close>

lemma gameOverCalls_append: "gameOverCalls (xs @ ys) = gameOverCalls xs @ gameOverCalls ys"
  by (induction xs rule: gameOverCalls.induct) simp_all

lemma scoreUpdates_append: "scoreUpdates (xs @ ys) = scoreUpdates xs @ scoreUpdates ys"
  by (induction xs rule: scoreUpdates.induct) simp_all

lemma gameRun_append:
  "gameRun st (xs @ ys) =
     (fst (gameRun (fst (gameRun st xs)) ys), snd (gameRun st xs) @ snd (gameRun (fst (gameRun st xs)) ys))"
  by (induction xs arbitrary: st) (simp_all add: Let_def split: prod.splits)

lemma updateGhost_fields:
  "maxAchievedHeightInGame (updateGhostAndIndicator s) = maxAchievedHeightInGame s"
  "isGameOver (updateGhostAndIndicator s) = isGameOver s"
  "worldReady (updateGhostAndIndicator s) = worldReady s"
  "sceneRefReady (updateGhostAndIndicator s) = sceneRefReady s"
  "cameraReady (updateGhostAndIndicator s) = cameraReady s"
  "rendererReady (updateGhostAndIndicator s) = rendererReady s"
  by (simp_all add: updateGhostAndIndicator_def Let_def split: option.splits)

lemma animate_fields:
  "isGameOver (fst (animate stepped s)) = isGameOver s"
  "worldReady (fst (animate stepped s)) = worldReady s"
  "sceneRefReady (fst (animate stepped s)) = sceneRefReady s"
  "cameraReady (fst (animate stepped s)) = cameraReady s"
  "rendererReady (fst (animate stepped s)) = rendererReady s"
  by (simp_all add: animate_def Let_def updateGhost_fields)

lemma animate_inactive:
  "\<not> worldReady s \<or> \<not> sceneRefReady s \<or> \<not> cameraReady s \<or> \<not> rendererReady s \<or> isGameOver s
    \<Longrightarrow> snd (animate stepped s) = []
        \<and> maxAchievedHeightInGame (fst (animate stepped s)) = maxAchievedHeightInGame s"
  by (auto simp: animate_def Let_def updateGhost_fields)

lemma animate_active:
  assumes "worldReady s" "sceneRefReady s" "cameraReady s" "rendererReady s" "\<not> isGameOver s"
  shows "\<exists>h. snd (animate stepped s) =
            ScoreUpdate (max 0 h)
              # (if terminalCondition stepped s
                 then [GameOver (max 0 (max (maxAchievedHeightInGame s) h))] else [])
          \<and> maxAchievedHeightInGame (fst (animate stepped s)) = max (maxAchievedHeightInGame s) h"
proof -
  let ?objs = "worldStep stepped (physicsObjects s)"
  let ?h = "if length ?objs > 0
            then highestBlockYForFrame (scanBlocks (isGameOver s) ?objs) - GROUND_LEVEL else 0"
  have "snd (animate stepped s) =
            ScoreUpdate (max 0 ?h)
              # (if terminalCondition stepped s
                 then [GameOver (max 0 (max (maxAchievedHeightInGame s) ?h))] else [])
          \<and> maxAchievedHeightInGame (fst (animate stepped s)) = max (maxAchievedHeightInGame s) ?h"
    using assms
    by (simp add: animate_def terminalCondition_def Let_def updateGhost_fields)
  then show ?thesis by blast
qed

lemma rerender_fields:
  "isGameOver (rerender a s) = hostIsGameOver a"
  "maxAchievedHeightInGame (rerender a s) = maxAchievedHeightInGame s"
  "worldReady (rerender a s) = worldReady s"
  "sceneRefReady (rerender a s) = sceneRefReady s"
  "cameraReady (rerender a s) = cameraReady s"
  "rendererReady (rerender a s) = rendererReady s"
  by (simp_all add: rerender_def syncProps_def ghostEffect_def hideGhost_def Let_def
      split: option.splits)

lemma internalAddBlock_fields:
  "isGameOver (fst (internalAddBlock s)) = isGameOver s"
  "maxAchievedHeightInGame (fst (internalAddBlock s)) = maxAchievedHeightInGame s"
  "worldReady (fst (internalAddBlock s)) = worldReady s"
  "sceneRefReady (fst (internalAddBlock s)) = sceneRefReady s"
  "cameraReady (fst (internalAddBlock s)) = cameraReady s"
  "rendererReady (fst (internalAddBlock s)) = rendererReady s"
  "snd (internalAddBlock s) = [] \<or> snd (internalAddBlock s) = [BlockPlaced]"
  by (simp_all add: internalAddBlock_def Let_def split: option.splits)

lemma terminalCondition_active: "terminalCondition stepped s \<Longrightarrow> \<not> isGameOver s"
  by (auto simp: terminalCondition_def scanBlocks_def scan_tipped scan_fallen Let_def)

lemma deliver_over:
  "hostIsGameOver (foldl (deliver d1 d2) a evs) = (hostIsGameOver a \<or> gameOverCalls evs \<noteq> [])"
proof (induction evs arbitrary: a)
  case Nil
  then show ?case by simp
next
  case (Cons e evs)
  then show ?case
    by (cases e) (auto simp: handleGameOver_def handleBlockSuccessfullyPlaced_def
        split: option.splits)
qed

lemma sceneStep_inactive:
  assumes "isGameOver s"
  shows "snd (sceneStep s i) = []"
  using assms
  by (cases i) (auto simp: animate_inactive internalAddBlock_def split: option.splits)

lemma sceneStep_nontick:
  assumes "\<And>stepped. i \<noteq> Tick stepped"
  shows "gameOverCalls (snd (sceneStep s i)) = [] \<and> scoreUpdates (snd (sceneStep s i)) = []
       \<and> maxAchievedHeightInGame (fst (sceneStep s i)) = maxAchievedHeightInGame s"
proof (cases i)
  case (Tick x)
  then show ?thesis using assms by simp
next
  case (PlaceBlock d1 d2)
  have "snd (internalAddBlock s) = [] \<or> snd (internalAddBlock s) = [BlockPlaced]"
    by (rule internalAddBlock_fields(7))
  then have "gameOverCalls (snd (internalAddBlock s)) = []
      \<and> scoreUpdates (snd (internalAddBlock s)) = []" by auto
  with PlaceBlock show ?thesis by (simp add: internalAddBlock_fields)
qed (simp_all add: cooldownElapsed_def)

lemma sceneStep_ready:
  "worldReady (fst (sceneStep s i)) = worldReady s"
  "sceneRefReady (fst (sceneStep s i)) = sceneRefReady s"
  "cameraReady (fst (sceneStep s i)) = cameraReady s"
  "rendererReady (fst (sceneStep s i)) = rendererReady s"
  by (cases i; simp add: animate_fields internalAddBlock_fields cooldownElapsed_def)+

lemma gameStep_over:
  assumes "isGameOver g" "hostIsGameOver a"
  shows "snd (gameStep (a, g) i) = []
       \<and> isGameOver (snd (fst (gameStep (a, g) i)))
       \<and> hostIsGameOver (fst (fst (gameStep (a, g) i)))"
  using assms sceneStep_inactive[of g i]
  by (simp add: gameStep_def Let_def split_beta rerender_fields)

lemma gameRun_over:
  assumes "isGameOver g" "hostIsGameOver a"
  shows "snd (gameRun (a, g) inputs) = []"
  using assms
proof (induction inputs arbitrary: a g)
  case Nil
  then show ?case by simp
next
  case (Cons i inputs)
  obtain a1 g1 where st1: "fst (gameStep (a, g) i) = (a1, g1)" by (cases "fst (gameStep (a, g) i)")
  from gameStep_over[OF Cons.prems, of i] st1
  have e: "snd (gameStep (a, g) i) = []" and o: "isGameOver g1" "hostIsGameOver a1" by auto
  from Cons.IH[OF o] e st1 show ?case
    by (simp add: split_beta Let_def)
qed

lemma gameRun_over_state:
  assumes "isGameOver g" "hostIsGameOver a"
  shows "isGameOver (snd (fst (gameRun (a, g) inputs)))"
  using assms
proof (induction inputs arbitrary: a g)
  case Nil
  then show ?case by simp
next
  case (Cons i inputs)
  obtain a1 g1 where st1: "fst (gameStep (a, g) i) = (a1, g1)" by (cases "fst (gameStep (a, g) i)")
  from gameStep_over[OF Cons.prems, of i] st1
  have o: "isGameOver g1" "hostIsGameOver a1" by auto
  from Cons.IH[OF o] st1 show ?case
    by (simp add: split_beta Let_def)
qed

lemma gameStep_state:
  "fst (gameStep (a, g) i) =
     (foldl (deliver (fst (draws i)) (snd (draws i))) a (snd (sceneStep g i)),
      rerender (foldl (deliver (fst (draws i)) (snd (draws i))) a (snd (sceneStep g i)))
        (fst (sceneStep g i)))"
  "snd (gameStep (a, g) i) = snd (sceneStep g i)"
  by (simp_all add: gameStep_def Let_def split_beta)

lemma gameStep_active:
  assumes "worldReady g" "sceneRefReady g" "cameraReady g" "rendererReady g"
    "\<not> isGameOver g" "\<not> hostIsGameOver a"
    and st1: "fst (gameStep (a, g) i) = (a1, g1)"
  shows "worldReady g1 \<and> sceneRefReady g1 \<and> cameraReady g1 \<and> rendererReady g1
       \<and> isGameOver g1 = hostIsGameOver a1
       \<and> hostIsGameOver a1 = (gameOverCalls (snd (gameStep (a, g) i)) \<noteq> [])
       \<and> (gameOverCalls (snd (gameStep (a, g) i)) = [] \<longrightarrow>
            max 0 (maxAchievedHeightInGame g1)
              = fold max (scoreUpdates (snd (gameStep (a, g) i))) (max 0 (maxAchievedHeightInGame g)))"
proof -
  let ?evs = "snd (sceneStep g i)"
  have a1: "a1 = foldl (deliver (fst (draws i)) (snd (draws i))) a ?evs"
    and g1: "g1 = rerender a1 (fst (sceneStep g i))"
    using st1 by (auto simp: gameStep_state)
  have ready: "worldReady g1 \<and> sceneRefReady g1 \<and> cameraReady g1 \<and> rendererReady g1"
    using assms(1-4) by (simp add: g1 rerender_fields sceneStep_ready)
  have over: "isGameOver g1 = hostIsGameOver a1" by (simp add: g1 rerender_fields)
  have host: "hostIsGameOver a1 = (gameOverCalls ?evs \<noteq> [])"
    using assms(6) by (simp add: a1 deliver_over)
  have mx: "gameOverCalls ?evs = [] \<longrightarrow>
      max 0 (maxAchievedHeightInGame g1)
        = fold max (scoreUpdates ?evs) (max 0 (maxAchievedHeightInGame g))"
  proof (cases "\<exists>stepped. i = Tick stepped")
    case True
    then obtain stepped where i: "i = Tick stepped" by blast
    from animate_active[OF assms(1-5), of stepped] obtain h where
      ev: "snd (animate stepped g) = ScoreUpdate (max 0 h)
              # (if terminalCondition stepped g
                 then [GameOver (max 0 (max (maxAchievedHeightInGame g) h))] else [])"
      and m: "maxAchievedHeightInGame (fst (animate stepped g)) = max (maxAchievedHeightInGame g) h"
      by blast
    show ?thesis
      using ev m by (auto simp: i g1 rerender_fields max_def)
  next
    case False
    then have "\<And>stepped. i \<noteq> Tick stepped" by blast
    from sceneStep_nontick[OF this, of g] show ?thesis
      by (simp add: g1 rerender_fields)
  qed
  from ready over host mx show ?thesis by (simp add: gameStep_state)
qed

lemma gameRun_Cons:
  "fst (gameRun st (i # inputs)) = fst (gameRun (fst (gameStep st i)) inputs)"
  "snd (gameRun st (i # inputs)) = snd (gameStep st i) @ snd (gameRun (fst (gameStep st i)) inputs)"
  by (simp_all add: Let_def split_beta)

lemma gameRun_active:
  assumes "worldReady g" "sceneRefReady g" "cameraReady g" "rendererReady g"
    "\<not> isGameOver g" "\<not> hostIsGameOver a"
    and "fst (gameRun (a, g) inputs) = (a', g')" and "\<not> isGameOver g'"
  shows "worldReady g' \<and> sceneRefReady g' \<and> cameraReady g' \<and> rendererReady g'
       \<and> \<not> hostIsGameOver a'
       \<and> gameOverCalls (snd (gameRun (a, g) inputs)) = []
       \<and> max 0 (maxAchievedHeightInGame g')
           = fold max (scoreUpdates (snd (gameRun (a, g) inputs))) (max 0 (maxAchievedHeightInGame g))"
  using assms
proof (induction inputs arbitrary: a g)
  case Nil
  then show ?case by simp
next
  case (Cons i inputs)
  obtain a1 g1 where st1: "fst (gameStep (a, g) i) = (a1, g1)" by (cases "fst (gameStep (a, g) i)")
  note step = gameStep_active[OF Cons.prems(1-6) st1]
  have run: "fst (gameRun (a1, g1) inputs) = (a', g')"
    using Cons.prems(7) st1 by (simp only: gameRun_Cons)
  have none: "gameOverCalls (snd (gameStep (a, g) i)) = []"
  proof (rule ccontr)
    assume "gameOverCalls (snd (gameStep (a, g) i)) \<noteq> []"
    with step have "isGameOver g1" "hostIsGameOver a1" by auto
    from gameRun_over_state[OF this, of inputs] run Cons.prems(8) show False by simp
  qed
  with step have act: "\<not> isGameOver g1" "\<not> hostIsGameOver a1"
    and rdy: "worldReady g1" "sceneRefReady g1" "cameraReady g1" "rendererReady g1"
    and mx: "max 0 (maxAchievedHeightInGame g1)
              = fold max (scoreUpdates (snd (gameStep (a, g) i))) (max 0 (maxAchievedHeightInGame g))"
    by auto
  from Cons.IH[OF rdy act run Cons.prems(8)] none mx st1
  show ?case
    by (simp only: gameRun_Cons gameOverCalls_append scoreUpdates_append fold_append comp_apply)
       simp
qed

lemma newGame_start:
  "worldReady (snd (newGame stored d1 d2))" "sceneRefReady (snd (newGame stored d1 d2))"
  "cameraReady (snd (newGame stored d1 d2))" "rendererReady (snd (newGame stored d1 d2))"
  "\<not> isGameOver (snd (newGame stored d1 d2))" "\<not> hostIsGameOver (fst (newGame stored d1 d2))"
  "maxAchievedHeightInGame (snd (newGame stored d1 d2)) = 0"
  by (simp_all add: newGame_def ghostEffect_def)

lemmas game_defs = newGame_def ghostEffect_def gameStep_def animate_def internalAddBlock_def
  rerender_def syncProps_def updateGhostAndIndicator_def vignetteStyleFor_def scanBlocks_def
  scanBlock_def handleGameOver_def handleBlockSuccessfullyPlaced_def
  BLOCK_DEFINITIONS_def origin_def
  GROUND_LEVEL_def BLOCK_SPAWN_HEIGHT_OFFSET_def STABILITY_INDICATOR_OFFSET_Y_def
  GAME_OVER_FALL_THRESHOLD_Y_def FALLEN_BLOCK_DOT_THRESHOLD_def
  TOWER_INSTABILITY_WARNING_DOT_THRESHOLD_def terminalCondition_def hideGhost_def
  TOWER_INSTABILITY_BLOCK_COUNT_FOR_MAX_EFFECT_def

text \<open>
  Claim C2. Take any game from its start, any inputs \<open>before\<close>, and a tick whose
  terminal condition (fallen off the world, or tipped over) fires. Then the game-over
  callback has not been invoked before that tick; the tick invokes it once, with the
  maximum of zero and all the heights published by \<open>onScoreUpdate\<close> during the game, this
  tick's included; and whatever inputs follow, the callback is not invoked again: over
  the whole game it is invoked exactly once. The host's \<open>isGameOver\<close> reaches the scene by
  a re-render between the tick and the next input.
\<close>

theorem game_over_once:
  assumes run: "gameRun (newGame stored d1 d2) before = (st, evLog)"
    and fires: "terminalCondition stepped (snd st)"
  shows "gameOverCalls evLog = []
    \<and> gameOverCalls (snd (gameStep st (Tick stepped)))
        = [Max (set (0 # scoreUpdates (evLog @ snd (gameStep st (Tick stepped)))))]
    \<and> gameOverCalls (snd (gameRun (newGame stored d1 d2) (before @ Tick stepped # post)))
        = [Max (set (0 # scoreUpdates (evLog @ snd (gameStep st (Tick stepped)))))]"
proof -
  obtain a g where st: "st = (a, g)" by (cases st)
  obtain a0 g0 where ng: "newGame stored d1 d2 = (a0, g0)" by (cases "newGame stored d1 d2")
  have start: "worldReady g0" "sceneRefReady g0" "cameraReady g0" "rendererReady g0"
    "\<not> isGameOver g0" "\<not> hostIsGameOver a0" "maxAchievedHeightInGame g0 = 0"
    using newGame_start[of stored d1 d2] by (simp_all add: ng)
  have active: "\<not> isGameOver g" using fires st terminalCondition_active by auto
  have fstrun: "fst (gameRun (a0, g0) before) = (a, g)" and sndrun: "snd (gameRun (a0, g0) before) = evLog"
    using run by (simp_all add: ng st)
  from gameRun_active[OF start(1-6) fstrun active]
  have rdy: "worldReady g" "sceneRefReady g" "cameraReady g" "rendererReady g"
    and host: "\<not> hostIsGameOver a"
    and none: "gameOverCalls evLog = []"
    and mx: "max 0 (maxAchievedHeightInGame g) = fold max (scoreUpdates evLog) 0"
    by (simp_all add: sndrun start(7))
  from animate_active[OF rdy active, of stepped] fires obtain h where
    ev: "snd (animate stepped g) =
           [ScoreUpdate (max 0 h), GameOver (max 0 (max (maxAchievedHeightInGame g) h))]"
    using st by auto
  have evs: "snd (gameStep st (Tick stepped)) =
           [ScoreUpdate (max 0 h), GameOver (max 0 (max (maxAchievedHeightInGame g) h))]"
    using ev by (simp add: st gameStep_state)
  have val: "Max (set (0 # scoreUpdates (evLog @ snd (gameStep st (Tick stepped)))))
      = max 0 (max (maxAchievedHeightInGame g) h)"
  proof -
    have "Max (set (0 # scoreUpdates (evLog @ snd (gameStep st (Tick stepped)))))
        = fold max (scoreUpdates (evLog @ snd (gameStep st (Tick stepped)))) 0"
      by (rule Max.set_eq_fold)
    also have "\<dots> = max (max 0 h) (fold max (scoreUpdates evLog) 0)"
      by (simp add: evs scoreUpdates_append)
    also have "\<dots> = max (max 0 h) (max 0 (maxAchievedHeightInGame g))"
      by (simp only: mx)
    also have "\<dots> = max 0 (max (maxAchievedHeightInGame g) h)"
      by (auto simp: max_def)
    finally show ?thesis .
  qed
  have "gameOverCalls (snd (gameStep st (Tick stepped)))
      = [max 0 (max (maxAchievedHeightInGame g) h)]"
    by (simp add: evs)
  then have here: "gameOverCalls (snd (gameStep st (Tick stepped)))
      = [Max (set (0 # scoreUpdates (evLog @ snd (gameStep st (Tick stepped)))))]"
    by (simp only: val)
  obtain a1 g1 where st1: "fst (gameStep (a, g) (Tick stepped)) = (a1, g1)"
    by (cases "fst (gameStep (a, g) (Tick stepped))")
  from gameStep_active[OF rdy active host st1] here
  have over: "isGameOver g1" "hostIsGameOver a1" by (auto simp: st)
  have later: "snd (gameRun (a1, g1) post) = []" by (rule gameRun_over[OF over])
  have whole: "snd (gameRun (newGame stored d1 d2) (before @ Tick stepped # post))
      = evLog @ snd (gameStep st (Tick stepped))"
    using later st1 by (simp add: gameRun_append run gameRun_Cons st del: gameRun.simps)
  show ?thesis
    using none here by (simp add: whole gameOverCalls_append)
qed

text \<open>
  A block is placed and rests with its top at height 1; then it falls below the fall
  threshold. The callback receives 1, the best height, while the height published at
  the moment of falling is 0; a further tick does not invoke it again.
\<close>

theorem game_over_once_witness:
  "terminalCondition [\<lparr>position = \<lparr>vx = 0, vy = - 6, vz = 0\<rparr>, upDot = 1\<rparr>]
     (snd (fst (gameRun (newGame 0 CUBE_S CUBE_S)
        [Tick [], PlaceBlock CUBE_S CUBE_S,
         Tick [\<lparr>position = \<lparr>vx = 0, vy = 0.5, vz = 0\<rparr>, upDot = 1\<rparr>]])))
   \<and> scoreUpdates (snd (gameStep (fst (gameRun (newGame 0 CUBE_S CUBE_S)
        [Tick [], PlaceBlock CUBE_S CUBE_S,
         Tick [\<lparr>position = \<lparr>vx = 0, vy = 0.5, vz = 0\<rparr>, upDot = 1\<rparr>]]))
        (Tick [\<lparr>position = \<lparr>vx = 0, vy = - 6, vz = 0\<rparr>, upDot = 1\<rparr>]))) = [0]
   \<and> gameOverCalls (snd (gameRun (newGame 0 CUBE_S CUBE_S)
        ([Tick [], PlaceBlock CUBE_S CUBE_S,
          Tick [\<lparr>position = \<lparr>vx = 0, vy = 0.5, vz = 0\<rparr>, upDot = 1\<rparr>]]
         @ Tick [\<lparr>position = \<lparr>vx = 0, vy = - 6, vz = 0\<rparr>, upDot = 1\<rparr>]
         # [Tick [\<lparr>position = \<lparr>vx = 0, vy = - 7, vz = 0\<rparr>, upDot = 1\<rparr>]]))) = [1]"
proof -
  let ?before = "[Tick [], PlaceBlock CUBE_S CUBE_S,
         Tick [\<lparr>position = \<lparr>vx = 0, vy = 0.5, vz = 0\<rparr>, upDot = 1\<rparr>]]"
  let ?fall = "[\<lparr>position = \<lparr>vx = 0, vy = - 6, vz = 0\<rparr>, upDot = 1\<rparr>]"
  let ?g = "newGame 0 CUBE_S CUBE_S"
  have r: "gameRun ?g ?before = (fst (gameRun ?g ?before), snd (gameRun ?g ?before))"
    by (rule prod.collapse[symmetric])
  have f: "terminalCondition ?fall (snd (fst (gameRun ?g ?before)))"
    by (simp add: game_defs Let_def)
  have s: "scoreUpdates (snd (gameRun ?g ?before)
             @ snd (gameStep (fst (gameRun ?g ?before)) (Tick ?fall))) = [0, 1, 0]"
    by (simp add: game_defs Let_def)
  have s0: "scoreUpdates (snd (gameStep (fst (gameRun ?g ?before)) (Tick ?fall))) = [0]"
    by (simp add: game_defs Let_def)
  from game_over_once[OF r f,
      of "[Tick [\<lparr>position = \<lparr>vx = 0, vy = - 7, vz = 0\<rparr>, upDot = 1\<rparr>]]"]
  have "gameOverCalls (snd (gameRun ?g
          (?before @ Tick ?fall
             # [Tick [\<lparr>position = \<lparr>vx = 0, vy = - 7, vz = 0\<rparr>, upDot = 1\<rparr>]])))
        = [Max (set (0 # [0, 1, 0]))]"
    by (simp only: s)
  then have "gameOverCalls (snd (gameRun ?g
          (?before @ Tick ?fall
             # [Tick [\<lparr>position = \<lparr>vx = 0, vy = - 7, vz = 0\<rparr>, upDot = 1\<rparr>]])))
        = [1]"
    by simp
  with f s0 show ?thesis by blast
qed

section \<open>Properties of the camera gesture controller\<close>

lemma initial_distance:
  "distanceTo INITIAL_CAMERA_POSITION_VECTOR INITIAL_CAMERA_LOOK_AT_VECTOR = sqrt 141"
  by (simp add: distanceTo_def INITIAL_CAMERA_POSITION_VECTOR_def INITIAL_CAMERA_LOOK_AT_VECTOR_def)

lemma sqrt_141_bounds: "8 \<le> sqrt 141" "sqrt 141 \<le> 12"
proof -
  have "sqrt (8\<^sup>2) \<le> sqrt 141" by (rule real_sqrt_le_mono) simp
  then show "8 \<le> sqrt 141" by simp
  have "sqrt 141 \<le> sqrt (12\<^sup>2)" by (rule real_sqrt_le_mono) simp
  then show "sqrt 141 \<le> 12" by simp
qed

lemma initial_phi_bounds:
  "CAMERA_MIN_POLAR_ANGLE \<le> arccos (4 / sqrt 141)"
  "arccos (4 / sqrt 141) \<le> CAMERA_MAX_POLAR_ANGLE"
proof -
  define y :: real where "y = 4 / sqrt 141"
  define lo :: real where "lo = 5 * (pi / 180)"
  define hi :: real where "hi = 88 * (pi / 180)"
  have pos: "0 < sqrt 141" using sqrt_141_bounds(1) by linarith
  have ylo: "1 / 3 \<le> y" using sqrt_141_bounds(2) pos by (simp add: y_def field_simps)
  have yhi: "y \<le> 1 / 2" using sqrt_141_bounds(1) pos by (simp add: y_def field_simps)
  have yabs: "\<bar>y\<bar> \<le> 1" using ylo yhi by linarith
  have p0: "0 < pi" by (rule pi_gt_zero)
  have p4: "pi < 4" by (rule pi_less_4)
  have lo_range: "0 \<le> lo" "lo \<le> pi / 3" "pi / 3 \<le> pi" using p0 by (simp_all add: lo_def)
  have "cos (pi / 3) \<le> cos lo" by (rule cos_monotone_0_pi_le[OF lo_range])
  then have "y \<le> cos lo" using yhi cos_60 by linarith
  then have "arccos (cos lo) \<le> arccos y"
    by (rule iffD2[OF arccos_le_mono[OF abs_cos_le_one yabs]])
  moreover have "arccos (cos lo) = lo" using lo_range by (intro arccos_cos) linarith+
  ultimately show "CAMERA_MIN_POLAR_ANGLE \<le> arccos (4 / sqrt 141)"
    by (simp add: CAMERA_MIN_POLAR_ANGLE_def degToRad_def lo_def y_def)
  have hi_range: "0 \<le> hi" "hi \<le> pi" using p0 by (simp_all add: hi_def)
  have e: "pi / 2 - hi = pi / 90" by (simp add: hi_def)
  have "cos hi = sin (pi / 2 - hi)" using cos_sin_eq[of hi] by simp
  then have "cos hi = sin (pi / 90)" by (simp only: e)
  moreover have "sin (pi / 90) \<le> pi / 90" by (rule sin_x_le_x) simp
  ultimately have "cos hi \<le> pi / 90" by linarith
  then have "cos hi \<le> y" using p4 ylo by linarith
  then have "arccos y \<le> arccos (cos hi)"
    by (rule iffD2[OF arccos_le_mono[OF yabs abs_cos_le_one]])
  moreover have "arccos (cos hi) = hi" using hi_range by (intro arccos_cos)
  ultimately show "arccos (4 / sqrt 141) \<le> CAMERA_MAX_POLAR_ANGLE"
    by (simp add: CAMERA_MAX_POLAR_ANGLE_def degToRad_def hi_def y_def)
qed

lemma polar_limits_ordered: "CAMERA_MIN_POLAR_ANGLE \<le> CAMERA_MAX_POLAR_ANGLE"
  using pi_gt_zero by (simp add: CAMERA_MIN_POLAR_ANGLE_def CAMERA_MAX_POLAR_ANGLE_def degToRad_def)

lemma clampPhi_range:
  "CAMERA_MIN_POLAR_ANGLE \<le> clampPhi p" "clampPhi p \<le> CAMERA_MAX_POLAR_ANGLE"
  using polar_limits_ordered by (simp_all add: clampPhi_def)

lemma clampRadius_range:
  "CAMERA_MIN_ZOOM_DISTANCE \<le> clampRadius r" "clampRadius r \<le> CAMERA_MAX_ZOOM_DISTANCE"
  by (simp_all add: clampRadius_def CAMERA_MIN_ZOOM_DISTANCE_def CAMERA_MAX_ZOOM_DISTANCE_def)

lemma cameraStep_limits:
  assumes "CAMERA_MIN_POLAR_ANGLE \<le> phi (cs c)" "phi (cs c) \<le> CAMERA_MAX_POLAR_ANGLE"
    "CAMERA_MIN_ZOOM_DISTANCE \<le> radius (cs c)" "radius (cs c) \<le> CAMERA_MAX_ZOOM_DISTANCE"
  shows "CAMERA_MIN_POLAR_ANGLE \<le> phi (cs (cameraStep c i))
       \<and> phi (cs (cameraStep c i)) \<le> CAMERA_MAX_POLAR_ANGLE
       \<and> CAMERA_MIN_ZOOM_DISTANCE \<le> radius (cs (cameraStep c i))
       \<and> radius (cs (cameraStep c i)) \<le> CAMERA_MAX_ZOOM_DISTANCE"
proof (cases i)
  case (MouseDown b x y)
  then show ?thesis using assms by (simp add: handleMouseDown_def)
next
  case (MouseMove x y)
  then show ?thesis using assms by (simp add: handleMouseMove_def Let_def clampPhi_range)
next
  case MouseUp
  then show ?thesis using assms by (simp add: handleMouseUp_def)
next
  case (Wheel d)
  then show ?thesis using assms by (simp add: handleWheel_def clampRadius_range)
next
  case (TouchStart touches)
  then show ?thesis using assms
    by (simp add: handleTouchStart_def Let_def split: list.splits)
next
  case (TouchMove touches dir)
  then show ?thesis using assms
    by (simp add: handleTouchMove_def Let_def clampPhi_range clampRadius_range
        split: list.splits option.splits)
next
  case (TouchEnd touches)
  then show ?thesis using assms by (simp add: handleTouchEnd_def split: list.splits)
next
  case (KeyDown key)
  then show ?thesis using assms by (simp add: handleKeyDownCamera_def Let_def)
next
  case (Preset preset h n)
  then show ?thesis
    by (cases preset)
       (simp_all add: setCameraPreset_def clampPhi_range CAMERA_PRESET_FRONT_def
          CAMERA_PRESET_TOP_def CAMERA_PRESET_SIDE_def CAMERA_MIN_ZOOM_DISTANCE_def
          CAMERA_MAX_ZOOM_DISTANCE_def)
qed

lemma initialControls_limits:
  "CAMERA_MIN_POLAR_ANGLE \<le> phi (cs initialControls)"
  "phi (cs initialControls) \<le> CAMERA_MAX_POLAR_ANGLE"
  "CAMERA_MIN_ZOOM_DISTANCE \<le> radius (cs initialControls)"
  "radius (cs initialControls) \<le> CAMERA_MAX_ZOOM_DISTANCE"
proof -
  have p: "phi (cs initialControls) = arccos (4 / sqrt 141)"
    by (simp add: initialControls_def initialCameraState_def initial_distance)
       (simp add: INITIAL_CAMERA_POSITION_VECTOR_def INITIAL_CAMERA_LOOK_AT_VECTOR_def)
  have r: "radius (cs initialControls) = sqrt 141"
    by (simp add: initialControls_def initialCameraState_def initial_distance)
  show "CAMERA_MIN_POLAR_ANGLE \<le> phi (cs initialControls)"
    "phi (cs initialControls) \<le> CAMERA_MAX_POLAR_ANGLE"
    by (simp_all only: p initial_phi_bounds)
  show "CAMERA_MIN_ZOOM_DISTANCE \<le> radius (cs initialControls)"
    "radius (cs initialControls) \<le> CAMERA_MAX_ZOOM_DISTANCE"
    using sqrt_141_bounds
    by (simp_all add: r CAMERA_MIN_ZOOM_DISTANCE_def CAMERA_MAX_ZOOM_DISTANCE_def)
qed

lemma foldl_cameraStep_limits:
  assumes "CAMERA_MIN_POLAR_ANGLE \<le> phi (cs c)" "phi (cs c) \<le> CAMERA_MAX_POLAR_ANGLE"
    "CAMERA_MIN_ZOOM_DISTANCE \<le> radius (cs c)" "radius (cs c) \<le> CAMERA_MAX_ZOOM_DISTANCE"
  shows "CAMERA_MIN_POLAR_ANGLE \<le> phi (cs (foldl cameraStep c inputs))
       \<and> phi (cs (foldl cameraStep c inputs)) \<le> CAMERA_MAX_POLAR_ANGLE
       \<and> CAMERA_MIN_ZOOM_DISTANCE \<le> radius (cs (foldl cameraStep c inputs))
       \<and> radius (cs (foldl cameraStep c inputs)) \<le> CAMERA_MAX_ZOOM_DISTANCE"
  using assms
proof (induction inputs arbitrary: c)
  case Nil
  then show ?case by simp
next
  case (Cons i inputs)
  from cameraStep_limits[OF Cons.prems, of i]
  have "CAMERA_MIN_POLAR_ANGLE \<le> phi (cs (cameraStep c i))"
    "phi (cs (cameraStep c i)) \<le> CAMERA_MAX_POLAR_ANGLE"
    "CAMERA_MIN_ZOOM_DISTANCE \<le> radius (cs (cameraStep c i))"
    "radius (cs (cameraStep c i)) \<le> CAMERA_MAX_ZOOM_DISTANCE" by simp_all
  from Cons.IH[OF this] show ?case by simp
qed

text \<open>
  Claim C4. After any sequence of mouse, wheel, touch, keyboard-pan and preset inputs
  applied to the initial camera state, \<open>phi\<close> lies within
  \<open>[CAMERA_MIN_POLAR_ANGLE, CAMERA_MAX_POLAR_ANGLE]\<close> and \<open>radius\<close> within
  \<open>[CAMERA_MIN_ZOOM_DISTANCE, CAMERA_MAX_ZOOM_DISTANCE]\<close>.
\<close>

theorem camera_within_limits:
  "CAMERA_MIN_POLAR_ANGLE \<le> phi (cs (cameraRun inputs))
   \<and> phi (cs (cameraRun inputs)) \<le> CAMERA_MAX_POLAR_ANGLE
   \<and> CAMERA_MIN_ZOOM_DISTANCE \<le> radius (cs (cameraRun inputs))
   \<and> radius (cs (cameraRun inputs)) \<le> CAMERA_MAX_ZOOM_DISTANCE"
  unfolding cameraRun_def by (rule foldl_cameraStep_limits[OF initialControls_limits])

text \<open>
  A drag far upwards, a long zoom out and the top preset: the angle and the distance
  stay within their limits.
\<close>

theorem camera_within_limits_witness:
  "CAMERA_MIN_POLAR_ANGLE
     \<le> phi (cs (cameraRun [MouseDown 0 0 0, MouseMove 0 1000, MouseUp, Wheel 5000,
                             Preset top 4 2]))
   \<and> phi (cs (cameraRun [MouseDown 0 0 0, MouseMove 0 1000, MouseUp, Wheel 5000,
                          Preset top 4 2]))
     \<le> CAMERA_MAX_POLAR_ANGLE
   \<and> CAMERA_MIN_ZOOM_DISTANCE
     \<le> radius (cs (cameraRun [MouseDown 0 0 0, MouseMove 0 1000, MouseUp, Wheel 5000,
                                Preset top 4 2]))
   \<and> radius (cs (cameraRun [MouseDown 0 0 0, MouseMove 0 1000, MouseUp, Wheel 5000,
                             Preset top 4 2]))
     \<le> CAMERA_MAX_ZOOM_DISTANCE"
  by (rule camera_within_limits)

lemma sqrt_squares: "sqrt 10000 = 100" "sqrt 40000 = 200"
  by (rule real_sqrt_unique; simp)+

lemma two_finger_move_keeps_pan:
  assumes "mounted c" "isInteracting (ts c)" "isP_anning (ts c)" "\<not> isPinching (ts c)"
  shows "mounted (handleTouchMove [t0, t1] dir c)
       \<and> isInteracting (ts (handleTouchMove [t0, t1] dir c))
       \<and> isP_anning (ts (handleTouchMove [t0, t1] dir c))
       \<and> \<not> isPinching (ts (handleTouchMove [t0, t1] dir c))
       \<and> radius (cs (handleTouchMove [t0, t1] dir c)) = radius (cs c)"
  using assms by (simp add: handleTouchMove_def Let_def split: option.splits)

lemma two_finger_moves_keep_pan:
  assumes "mounted c" "isInteracting (ts c)" "isP_anning (ts c)" "\<not> isPinching (ts c)"
  shows "isP_anning (ts (foldl (\<lambda>c' m. handleTouchMove [fst m, fst (snd m)] (snd (snd m)) c') c moves))
       \<and> \<not> isPinching (ts (foldl (\<lambda>c' m. handleTouchMove [fst m, fst (snd m)] (snd (snd m)) c') c moves))
       \<and> radius (cs (foldl (\<lambda>c' m. handleTouchMove [fst m, fst (snd m)] (snd (snd m)) c') c moves))
           = radius (cs c)"
  using assms
proof (induction moves arbitrary: c)
  case Nil
  then show ?case by simp
next
  case (Cons m moves)
  from two_finger_move_keeps_pan[OF Cons.prems, of "fst m" "fst (snd m)" "snd (snd m)"]
  have k: "mounted (handleTouchMove [fst m, fst (snd m)] (snd (snd m)) c)"
    "isInteracting (ts (handleTouchMove [fst m, fst (snd m)] (snd (snd m)) c))"
    "isP_anning (ts (handleTouchMove [fst m, fst (snd m)] (snd (snd m)) c))"
    "\<not> isPinching (ts (handleTouchMove [fst m, fst (snd m)] (snd (snd m)) c))"
    and r: "radius (cs (handleTouchMove [fst m, fst (snd m)] (snd (snd m)) c)) = radius (cs c)"
    by simp_all
  from Cons.IH[OF k] r show ?case by simp
qed

text \<open>
  Claim C5. The comments of \<open>handleTouchStart\<close> (lines 713 and 724: the move will
  determine pinch or pan, pinch can override the default) and the help panel (two-finger
  pinch zooms) agree with the claim that a contact whose distance change dominates
  becomes a pinch and adjusts \<open>radius\<close>. The code does not do it: a touchstart with two
  touches sets pan mode, and the decision in \<open>handleTouchMove\<close> (line 768) runs only while
  neither mode is set. So after two fingers have made contact on the mounted scene,
  whatever two-finger moves follow, pan mode stays set, pinch mode is never locked and
  \<open>radius\<close> keeps its value.
\<close>

theorem pinch_never_locks_after_two_finger_start:
  assumes "mounted c"
  shows "(let start = handleTouchStart [a, b] c;
              final = foldl (\<lambda>c' m. handleTouchMove [fst m, fst (snd m)] (snd (snd m)) c')
                        start moves
          in isP_anning (ts start) \<and> \<not> isPinching (ts start)
             \<and> isP_anning (ts final) \<and> \<not> isPinching (ts final)
             \<and> radius (cs final) = radius (cs c))"
proof -
  let ?start = "handleTouchStart [a, b] c"
  have s: "mounted ?start" "isInteracting (ts ?start)" "isP_anning (ts ?start)"
    "\<not> isPinching (ts ?start)"
    and r: "radius (cs ?start) = radius (cs c)"
    using assms by (simp_all add: handleTouchStart_def Let_def)
  from two_finger_moves_keep_pan[OF s, of moves] s r show ?thesis
    by (simp add: Let_def)
qed

text \<open>
  Two fingers land 100 pixels apart and spread to 200 pixels apart about the same
  midpoint: the distance change is 100, above the threshold of 2 and above the midpoint
  displacement 0, and yet pan mode stays, pinch is not locked and \<open>radius\<close> is unchanged.
\<close>

theorem pinch_never_locks_after_two_finger_start_witness:
  "(let start = handleTouchStart [\<lparr>clientX = 0, clientY = 0\<rparr>, \<lparr>clientX = 100, clientY = 0\<rparr>]
                  initialControls;
        final = handleTouchMove [\<lparr>clientX = - 50, clientY = 0\<rparr>, \<lparr>clientX = 150, clientY = 0\<rparr>]
                  (Some \<lparr>vx = 0, vy = - 1, vz = - 1\<rparr>) start
    in mounted initialControls
       \<and> initialPinchDistance (ts start) = 100
       \<and> initialPanMidX (ts start) = 50 \<and> initialPanMidY (ts start) = 0
       \<and> sqrt ((- 50 - 150) * (- 50 - 150) + (0 - 0) * (0 - 0))
             - initialPinchDistance (ts start) = 100
       \<and> (- 50 + 150) / 2 - initialPanMidX (ts start) = 0
       \<and> (0 + 0) / 2 - initialPanMidY (ts start) = 0
       \<and> isP_anning (ts start) \<and> \<not> isPinching (ts start)
       \<and> isP_anning (ts final) \<and> \<not> isPinching (ts final)
       \<and> radius (cs final) = radius (cs initialControls))"
proof -
  have m: "mounted initialControls" by (simp add: initialControls_def)
  have sig: "initialPinchDistance (ts (handleTouchStart
        [\<lparr>clientX = 0, clientY = 0\<rparr>, \<lparr>clientX = 100, clientY = 0\<rparr>] initialControls)) = 100"
    "initialPanMidX (ts (handleTouchStart
        [\<lparr>clientX = 0, clientY = 0\<rparr>, \<lparr>clientX = 100, clientY = 0\<rparr>] initialControls)) = 50"
    "initialPanMidY (ts (handleTouchStart
        [\<lparr>clientX = 0, clientY = 0\<rparr>, \<lparr>clientX = 100, clientY = 0\<rparr>] initialControls)) = 0"
    "sqrt ((- 50 - 150) * (- 50 - 150) + (0 - 0) * (0 - 0)) = (200 :: real)"
    by (simp_all add: handleTouchStart_def initialControls_def Let_def sqrt_squares)
  from pinch_never_locks_after_two_finger_start[OF m,
      of "\<lparr>clientX = 0, clientY = 0\<rparr>" "\<lparr>clientX = 100, clientY = 0\<rparr>"
         "[(\<lparr>clientX = - 50, clientY = 0\<rparr>, \<lparr>clientX = 150, clientY = 0\<rparr>,
            Some \<lparr>vx = 0, vy = - 1, vz = - 1\<rparr>)]"]
  show ?thesis
    using m sig by (simp add: Let_def)
qed

end
